theory Spec2Isabelle
  imports Complex_Main
begin

section \<open>SFMdata: the landmarks and the ring of camera poses\<close>

text \<open>
  The module \<^verbatim>\<open>python/gtsam_examples/SFMdata.py\<close> has two functions,
  \<^verbatim>\<open>createPoints\<close> and \<^verbatim>\<open>createPoses\<close>. Python floats are
  modelled as the real numbers (\<^typ>\<open>real\<close>): \<^verbatim>\<open>np.cos\<close> and \<^verbatim>\<open>np.sin\<close>
  are \<^const>\<open>cos\<close> and \<^const>\<open>sin\<close>, and the rounding of a result is not modelled.
  In \<open>createPoses\<close> the constant \<^verbatim>\<open>np.pi\<close> is read as \<^const>\<open>pi\<close>; statements
  about \<open>createPoses\<close> are about this exact arithmetic. The program's \<^verbatim>\<open>np.pi\<close>
  is not \<^const>\<open>pi\<close> but the double nearest to it, \<open>np_pi\<close>: where a statement
  depends on the difference, it is made about \<open>createPoses_np np_pi\<close>, the same
  function with the value of \<^verbatim>\<open>np.pi\<close> as a parameter.
\<close>

subsection \<open>Points and vector arithmetic\<close>

text \<open>\<^verbatim>\<open>gtsam.Point3(x, y, z)\<close>: a triple of coordinates.\<close>

datatype Point3 = Point3 (px: real) (py: real) (pz: real)

definition sub3 :: "Point3 \<Rightarrow> Point3 \<Rightarrow> Point3" where
  "sub3 a b = Point3 (px a - px b) (py a - py b) (pz a - pz b)"

definition add3 :: "Point3 \<Rightarrow> Point3 \<Rightarrow> Point3" where
  "add3 a b = Point3 (px a + px b) (py a + py b) (pz a + pz b)"

definition scale3 :: "real \<Rightarrow> Point3 \<Rightarrow> Point3" where
  "scale3 c a = Point3 (c * px a) (c * py a) (c * pz a)"

definition dot3 :: "Point3 \<Rightarrow> Point3 \<Rightarrow> real" where
  "dot3 a b = px a * px b + py a * py b + pz a * pz b"

definition cross3 :: "Point3 \<Rightarrow> Point3 \<Rightarrow> Point3" where
  "cross3 a b = Point3 (py a * pz b - pz a * py b)
                       (pz a * px b - px a * pz b)
                       (px a * py b - py a * px b)"

definition norm3 :: "Point3 \<Rightarrow> real" where
  "norm3 a = sqrt (dot3 a a)"

text \<open>Normalising the zero vector divides by zero: that is the failure \<^const>\<open>None\<close>.\<close>

definition normalize3 :: "Point3 \<Rightarrow> Point3 option" where
  "normalize3 a = (if norm3 a = 0 then None else Some (scale3 (1 / norm3 a) a))"

subsection \<open>Poses and the look-at construction\<close>

datatype error = DegenerateLookat | BadReference

text \<open>
  The three axes of a camera frame, named as the specification names them.
\<close>

record Orientation =
  right_axis :: Point3
  up_axis :: Point3
  forward_axis :: Point3

record Pose =
  position :: Point3
  orientation :: Orientation

text \<open>
  The pinhole camera is only the vehicle of the look-at construction; its default
  calibration is never read, so the camera is its pose.
\<close>

datatype PinholeCameraCal3_S2 = PinholeCameraCal3_S2 (pose: Pose)

text \<open>
  Modelled from the spec: \<^verbatim>\<open>gtsam.PinholeCameraCal3_S2.Lookat\<close> and
  \<^verbatim>\<open>camera.pose()\<close> belong to the library's geometry code, which is not among the
  sources at hand. Section 4.2 of the specification gives the rule: forward axis =
  normalize(target - eye); right axis = normalize(forward \<times> up); recomputed up axis =
  right \<times> forward; the returned pose's position equals eye. The degenerate inputs
  (eye = target, or forward parallel to the up hint), where a normalisation would divide
  by zero, "must fail": they are the error \<^const>\<open>DegenerateLookat\<close>.
\<close>

definition Lookat :: "Point3 \<Rightarrow> Point3 \<Rightarrow> Point3 \<Rightarrow> error + PinholeCameraCal3_S2" where
  "Lookat eye target upVector =
     (case normalize3 (sub3 target eye) of
        None \<Rightarrow> Inl DegenerateLookat
      | Some fwd \<Rightarrow>
          (case normalize3 (cross3 fwd upVector) of
             None \<Rightarrow> Inl DegenerateLookat
           | Some rgt \<Rightarrow>
               Inr (PinholeCameraCal3_S2
                     \<lparr>position = eye,
                      orientation = \<lparr>right_axis = rgt,
                                     up_axis = cross3 rgt fwd,
                                     forward_axis = fwd\<rparr>\<rparr>)))"

subsection \<open>createPoints\<close>

text \<open>
  \<^verbatim>\<open>
  def createPoints():
      points = [gtsam.Point3(10.0,10.0,10.0),
                gtsam.Point3(-10.0,10.0,10.0),
                gtsam.Point3(-10.0,-10.0,10.0),
                gtsam.Point3(10.0,-10.0,10.0),
                gtsam.Point3(10.0,10.0,-10.0),
                gtsam.Point3(-10.0,10.0,-10.0),
                gtsam.Point3(-10.0,-10.0,-10.0),
                gtsam.Point3(10.0,-10.0,-10.0)]
      return points
  \<close>
\<close>

definition createPoints :: "Point3 list" where
  "createPoints =
     (let points = [Point3 10 10 10,
                    Point3 (-10) 10 10,
                    Point3 (-10) (-10) 10,
                    Point3 10 (-10) 10,
                    Point3 10 10 (-10),
                    Point3 (-10) 10 (-10),
                    Point3 (-10) (-10) (-10),
                    Point3 10 (-10) (-10)]
      in points)"

subsection \<open>createPoses\<close>

text \<open>
  \<^verbatim>\<open>np.linspace(start, stop, num, endpoint)\<close>: \<^verbatim>\<open>num\<close> samples
  \<^verbatim>\<open>start + i * step\<close> with \<^verbatim>\<open>step = (stop - start) / div\<close>, where
  \<^verbatim>\<open>div\<close> is \<^verbatim>\<open>num - 1\<close> with the end point and \<^verbatim>\<open>num\<close> without it;
  when \<^verbatim>\<open>div\<close> is 0 numpy does not divide.
\<close>

definition linspace :: "real \<Rightarrow> real \<Rightarrow> nat \<Rightarrow> bool \<Rightarrow> real list" where
  "linspace start stop num endpoint =
     (let dv = (if endpoint then num - 1 else num);
          delta = stop - start
      in if dv > 0
         then map (\<lambda>i. real i * (delta / real dv) + start) [0..<num]
         else map (\<lambda>i. real i * delta + start) [0..<num])"

text \<open>
  \<^verbatim>\<open>
  def createPoses():
      radius = 30.0
      angles = np.linspace(0,2*np.pi,8,endpoint=False)
      up = gtsam.Point3(0,0,1)
      target = gtsam.Point3(0,0,0)
      poses = []
      for theta in angles:
          position = gtsam.Point3(radius*np.cos(theta), radius*np.sin(theta), 0.0)
          camera = gtsam.PinholeCameraCal3_S2.Lookat(position, target, up)
          poses.append(camera.pose())
      return poses
  \<close>
  The loop is a recursion over the remaining angles, with the list \<^verbatim>\<open>poses\<close> built so
  far as accumulator; an error of \<^const>\<open>Lookat\<close> ends it, as an exception would.
\<close>

fun createPoses_loop ::
  "real \<Rightarrow> Point3 \<Rightarrow> Point3 \<Rightarrow> real list \<Rightarrow> Pose list \<Rightarrow> error + Pose list" where
  "createPoses_loop radius up target [] poses = Inr poses"
| "createPoses_loop radius up target (theta # angles) poses =
     (let eye = Point3 (radius * cos theta) (radius * sin theta) 0
      in case Lookat eye target up of
           Inl e \<Rightarrow> Inl e
         | Inr camera \<Rightarrow> createPoses_loop radius up target angles (poses @ [pose camera]))"

definition createPoses :: "error + Pose list" where
  "createPoses =
     (let radius = 30;
          angles = linspace 0 (2 * pi) 8 False;
          up = Point3 0 0 1;
          target = Point3 0 0 0;
          poses = []
      in createPoses_loop radius up target angles poses)"

text \<open>
  \<^verbatim>\<open>np.pi\<close> is a constant of numpy: the IEEE double nearest to \<^const>\<open>pi\<close>, with the bits
  \<^verbatim>\<open>0x400921FB54442D18\<close>, that is \<open>884279719003555 / 2 ^ 48\<close>. It is smaller than
  \<^const>\<open>pi\<close> by about \<open>1.2e-16\<close> (\<open>np_pi_less_pi\<close>, \<open>pi_less_np_pi_ulp\<close>).
\<close>

definition np_pi :: real where
  "np_pi = 884279719003555 / 281474976710656"

text \<open>
  \<^verbatim>\<open>createPoses\<close> with the value of \<^verbatim>\<open>np.pi\<close> as a parameter; the body is the one of
  \<open>createPoses\<close>, and \<open>createPoses_np pi = createPoses\<close> (\<open>createPoses_np_exact\<close>).
  The products \<^verbatim>\<open>2*np.pi\<close>, \<^verbatim>\<open>k * step\<close> and \<^verbatim>\<open>radius * np.cos(theta)\<close> and the
  results of \<^verbatim>\<open>np.cos\<close> and \<^verbatim>\<open>np.sin\<close> are still exact.
\<close>

definition createPoses_np :: "real \<Rightarrow> error + Pose list" where
  "createPoses_np np_pi_value =
     (let radius = 30;
          angles = linspace 0 (2 * np_pi_value) 8 False;
          up = Point3 0 0 1;
          target = Point3 0 0 0;
          poses = []
      in createPoses_loop radius up target angles poses)"

subsection \<open>Rotation matrices\<close>

text \<open>A 3x3 matrix, given by its three rows.\<close>

datatype Mat3 = Mat3 (row1: Point3) (row2: Point3) (row3: Point3)

definition col1 :: "Mat3 \<Rightarrow> Point3" where
  "col1 m = Point3 (px (row1 m)) (px (row2 m)) (px (row3 m))"

definition col2 :: "Mat3 \<Rightarrow> Point3" where
  "col2 m = Point3 (py (row1 m)) (py (row2 m)) (py (row3 m))"

definition col3 :: "Mat3 \<Rightarrow> Point3" where
  "col3 m = Point3 (pz (row1 m)) (pz (row2 m)) (pz (row3 m))"

definition from_columns :: "Point3 \<Rightarrow> Point3 \<Rightarrow> Point3 \<Rightarrow> Mat3" where
  "from_columns a b c =
     Mat3 (Point3 (px a) (px b) (px c))
          (Point3 (py a) (py b) (py c))
          (Point3 (pz a) (pz b) (pz c))"

definition transpose3 :: "Mat3 \<Rightarrow> Mat3" where
  "transpose3 m = Mat3 (col1 m) (col2 m) (col3 m)"

definition mat_mult :: "Mat3 \<Rightarrow> Mat3 \<Rightarrow> Mat3" where
  "mat_mult a b =
     Mat3 (Point3 (dot3 (row1 a) (col1 b)) (dot3 (row1 a) (col2 b)) (dot3 (row1 a) (col3 b)))
          (Point3 (dot3 (row2 a) (col1 b)) (dot3 (row2 a) (col2 b)) (dot3 (row2 a) (col3 b)))
          (Point3 (dot3 (row3 a) (col1 b)) (dot3 (row3 a) (col2 b)) (dot3 (row3 a) (col3 b)))"

definition identity3 :: Mat3 where
  "identity3 = Mat3 (Point3 1 0 0) (Point3 0 1 0) (Point3 0 0 1)"

text \<open>The determinant, expanded along the first row.\<close>

definition det3 :: "Mat3 \<Rightarrow> real" where
  "det3 m =
     px (row1 m) * (py (row2 m) * pz (row3 m) - pz (row2 m) * py (row3 m))
     - py (row1 m) * (px (row2 m) * pz (row3 m) - pz (row2 m) * px (row3 m))
     + pz (row1 m) * (px (row2 m) * py (row3 m) - py (row2 m) * px (row3 m))"

text \<open>
  Modelled from the spec: the rotation matrix of a pose is part of the library's pose
  type, which is not among the sources at hand. The specification fixes the three axes
  and requires the frame to be "orthonormal and right-handed", leaving the column
  convention to the library. The columns here are the camera axes x = right,
  y = down (the recomputed up axis negated: image rows grow downwards) and z = forward.
  Of the arrangements that keep right first and forward last, it is the right-handed
  one; the same axes in the order (right, up, forward) are \<open>frame_matrix\<close>.
\<close>

definition rotation_matrix :: "Orientation \<Rightarrow> Mat3" where
  "rotation_matrix fr =
     from_columns (right_axis fr) (scale3 (- 1) (up_axis fr)) (forward_axis fr)"

definition frame_matrix :: "Orientation \<Rightarrow> Mat3" where
  "frame_matrix fr = from_columns (right_axis fr) (up_axis fr) (forward_axis fr)"

subsection \<open>The object store\<close>

text \<open>
  To speak about what a call leaves untouched and about the identity of what it returns,
  the two functions are also modelled on an explicit store of Python objects. An
  address is an index into the store; allocating appends a new object, so the
  addresses below the length of the store before a call are exactly the objects that
  existed before it. The only update in place is \<^verbatim>\<open>poses.append(...)\<close>.
  Floats are immediate values.
\<close>

type_synonym addr = nat

datatype obj =
    PointObj Point3
  | ArrayObj "real list"
  | CameraObj PinholeCameraCal3_S2
  | PoseObj Pose
  | ListObj "addr list"

type_synonym heap = "obj list"

text \<open>Creating an object: a fresh address, and the store extended by the object.\<close>

definition alloc :: "obj \<Rightarrow> heap \<Rightarrow> addr \<times> heap" where
  "alloc ob h = (length h, h @ [ob])"

definition lookup :: "heap \<Rightarrow> addr \<Rightarrow> obj option" where
  "lookup h a = (if a < length h then Some (h ! a) else None)"

definition get_point :: "heap \<Rightarrow> addr \<Rightarrow> error + Point3" where
  "get_point h a = (case lookup h a of Some (PointObj p) \<Rightarrow> Inr p | _ \<Rightarrow> Inl BadReference)"

definition get_array :: "heap \<Rightarrow> addr \<Rightarrow> error + real list" where
  "get_array h a = (case lookup h a of Some (ArrayObj xs) \<Rightarrow> Inr xs | _ \<Rightarrow> Inl BadReference)"

text \<open>\<^verbatim>\<open>lst.append(x)\<close>: the list object at \<open>lst\<close> is updated in place.\<close>

definition list_append :: "addr \<Rightarrow> addr \<Rightarrow> heap \<Rightarrow> error + heap" where
  "list_append lst x h =
     (case lookup h lst of
        Some (ListObj xs) \<Rightarrow> Inr (h[lst := ListObj (xs @ [x])])
      | _ \<Rightarrow> Inl BadReference)"

text \<open>
  The list display of \<^verbatim>\<open>createPoints\<close>: the \<^verbatim>\<open>gtsam.Point3(...)\<close> calls are evaluated
  from left to right, each creating an object; then the list object is created.
\<close>

fun alloc_points :: "Point3 list \<Rightarrow> heap \<Rightarrow> addr list \<times> heap" where
  "alloc_points [] h = ([], h)"
| "alloc_points (p # ps) h =
     (let (a, h1) = alloc (PointObj p) h;
          (as, h2) = alloc_points ps h1
      in (a # as, h2))"

definition createPoints_heap :: "heap \<Rightarrow> addr \<times> heap" where
  "createPoints_heap h =
     (let (elems, h1) = alloc_points createPoints h;
          (points, h2) = alloc (ListObj elems) h1
      in (points, h2))"

text \<open>
  \<^verbatim>\<open>createPoses\<close> on the store: the array of angles, \<^verbatim>\<open>up\<close>, \<^verbatim>\<open>target\<close> and the
  empty list \<^verbatim>\<open>poses\<close> are created in this order; each iteration creates the position,
  the camera and the pose, and appends the pose to \<^verbatim>\<open>poses\<close>.
\<close>

fun createPoses_heap_loop ::
  "real \<Rightarrow> addr \<Rightarrow> addr \<Rightarrow> real list \<Rightarrow> addr \<Rightarrow> heap \<Rightarrow> error + heap" where
  "createPoses_heap_loop radius up target [] poses h = Inr h"
| "createPoses_heap_loop radius up target (theta # angles) poses h =
     (let eye = Point3 (radius * cos theta) (radius * sin theta) 0;
          (eye_ref, h1) = alloc (PointObj eye) h
      in case get_point h1 target of
           Inl e \<Rightarrow> Inl e
         | Inr t \<Rightarrow>
             (case get_point h1 up of
                Inl e \<Rightarrow> Inl e
              | Inr u \<Rightarrow>
                  (case Lookat eye t u of
                     Inl e \<Rightarrow> Inl e
                   | Inr camera \<Rightarrow>
                       (let (camera_ref, h2) = alloc (CameraObj camera) h1;
                            (pose_ref, h3) = alloc (PoseObj (pose camera)) h2
                        in case list_append poses pose_ref h3 of
                             Inl e \<Rightarrow> Inl e
                           | Inr h4 \<Rightarrow>
                               createPoses_heap_loop radius up target angles poses h4))))"

definition createPoses_heap :: "heap \<Rightarrow> error + addr \<times> heap" where
  "createPoses_heap h =
     (let radius = 30;
          (angles, h1) = alloc (ArrayObj (linspace 0 (2 * pi) 8 False)) h;
          (up, h2) = alloc (PointObj (Point3 0 0 1)) h1;
          (target, h3) = alloc (PointObj (Point3 0 0 0)) h2;
          (poses, h4) = alloc (ListObj []) h3
      in case get_array h4 angles of
           Inl e \<Rightarrow> Inl e
         | Inr thetas \<Rightarrow>
             (case createPoses_heap_loop radius up target thetas poses h4 of
                Inl e \<Rightarrow> Inl e
              | Inr h5 \<Rightarrow> Inr (poses, h5)))"

text \<open>Reading a returned list back as values.\<close>

definition point_at :: "heap \<Rightarrow> addr \<Rightarrow> Point3 option" where
  "point_at h a = (case lookup h a of Some (PointObj p) \<Rightarrow> Some p | _ \<Rightarrow> None)"

definition pose_at :: "heap \<Rightarrow> addr \<Rightarrow> Pose option" where
  "pose_at h a = (case lookup h a of Some (PoseObj p) \<Rightarrow> Some p | _ \<Rightarrow> None)"

definition points_of :: "heap \<Rightarrow> addr \<Rightarrow> Point3 list option" where
  "points_of h a =
     (case lookup h a of Some (ListObj xs) \<Rightarrow> those (map (point_at h) xs) | _ \<Rightarrow> None)"

definition poses_of :: "heap \<Rightarrow> addr \<Rightarrow> Pose list option" where
  "poses_of h a =
     (case lookup h a of Some (ListObj xs) \<Rightarrow> those (map (pose_at h) xs) | _ \<Rightarrow> None)"

subsection \<open>The closed form of a pose on the ring\<close>

text \<open>
  The pose that the look-at construction yields at angle \<open>t\<close> of the circle of radius
  \<open>r\<close> around the origin. It is not part of the program: \<open>createPoses_ring\<close> below
  proves that the program computes it.
\<close>

definition ring_pose :: "real \<Rightarrow> real \<Rightarrow> Pose" where
  "ring_pose r t =
     \<lparr>position = Point3 (r * cos t) (r * sin t) 0,
      orientation = \<lparr>right_axis = Point3 (- sin t) (cos t) 0,
                     up_axis = Point3 0 0 1,
                     forward_axis = Point3 (- cos t) (- sin t) 0\<rparr>\<rparr>"

text \<open>
  The objects that one iteration of the loop creates, and the store after a call of
  \<^verbatim>\<open>createPoses\<close> on the store \<open>h\<close>. Again they are not part of the program:
  \<open>createPoses_heap_closed\<close> proves that the program computes them.
\<close>

definition ring_cell :: "real \<Rightarrow> real \<Rightarrow> obj list" where
  "ring_cell r t =
     [PointObj (Point3 (r * cos t) (r * sin t) 0),
      CameraObj (PinholeCameraCal3_S2 (ring_pose r t)),
      PoseObj (ring_pose r t)]"

definition ring_heap :: "heap \<Rightarrow> heap" where
  "ring_heap h =
     (h @ [ArrayObj (linspace 0 (2 * pi) 8 False), PointObj (Point3 0 0 1),
           PointObj (Point3 0 0 0), ListObj []]
        @ concat (map (ring_cell 30) (linspace 0 (2 * pi) 8 False)))
     [length h + 3 := ListObj (map (\<lambda>i. length h + 4 + 3 * i + 2) [0..<8])]"

text \<open>The partial sums of the series of the arc tangent, to bound \<^const>\<open>pi\<close>.\<close>

definition arctan_sum :: "nat \<Rightarrow> real \<Rightarrow> real" where
  "arctan_sum n x = (\<Sum>i<n. (- 1) ^ i * (1 / real (i * 2 + 1) * x ^ (i * 2 + 1)))"

section \<open>Helper lemmas\<close>

lemma ring_square: "(r * cos t) * (r * cos t) + (r * sin t) * (r * sin t) = r * r" for r t :: real
proof -
  have "(r * cos t) * (r * cos t) + (r * sin t) * (r * sin t) = r * r * ((sin t)\<^sup>2 + (cos t)\<^sup>2)"
    unfolding power2_eq_square by (simp only: algebra_simps)
  also have "\<dots> = r * r" by (simp only: sin_cos_squared_add mult_1_right)
  finally show ?thesis .
qed

lemma norm3_ring: "norm3 (Point3 (r * cos t) (r * sin t) 0) = \<bar>r\<bar>"
  by (simp add: norm3_def dot3_def ring_square)

lemma normalize3_scaled:
  assumes "norm3 v = 1" and "0 < c"
  shows "normalize3 (scale3 c v) = Some v"
proof -
  have d: "dot3 (scale3 c v) (scale3 c v) = c * c * dot3 v v"
    by (simp add: dot3_def scale3_def algebra_simps)
  have "norm3 (scale3 c v) = c * norm3 v"
    using assms(2) by (simp add: norm3_def d real_sqrt_mult)
  then have n: "norm3 (scale3 c v) = c"
    using assms(1) by simp
  have "scale3 (1 / c) (scale3 c v) = v"
    using assms(2) by (cases v) (simp add: scale3_def)
  then show ?thesis
    using assms(2) by (simp add: normalize3_def n)
qed

lemma norm3_unit_ring: "norm3 (Point3 (- cos t) (- sin t) 0) = 1"
  by (simp add: norm3_def dot3_def power2_eq_square [symmetric])

lemma norm3_unit_tangent: "norm3 (Point3 (- sin t) (cos t) 0) = 1"
  by (simp add: norm3_def dot3_def power2_eq_square [symmetric])

lemma Lookat_ring:
  assumes "0 < r"
  shows "Lookat (Point3 (r * cos t) (r * sin t) 0) (Point3 0 0 0) (Point3 0 0 1) =
     Inr (PinholeCameraCal3_S2
           \<lparr>position = Point3 (r * cos t) (r * sin t) 0,
            orientation = \<lparr>right_axis = Point3 (- sin t) (cos t) 0,
                           up_axis = Point3 0 0 1,
                           forward_axis = Point3 (- cos t) (- sin t) 0\<rparr>\<rparr>)"
proof -
  have s: "sub3 (Point3 0 0 0) (Point3 (r * cos t) (r * sin t) 0) =
             scale3 r (Point3 (- cos t) (- sin t) 0)"
    by (simp add: sub3_def scale3_def)
  have f: "normalize3 (sub3 (Point3 0 0 0) (Point3 (r * cos t) (r * sin t) 0)) =
             Some (Point3 (- cos t) (- sin t) 0)"
    unfolding s using norm3_unit_ring assms by (rule normalize3_scaled)
  have c: "cross3 (Point3 (- cos t) (- sin t) 0) (Point3 0 0 1) = Point3 (- sin t) (cos t) 0"
    by (simp add: cross3_def)
  have r: "normalize3 (Point3 (- sin t) (cos t) 0) = Some (Point3 (- sin t) (cos t) 0)"
    by (simp add: normalize3_def norm3_unit_tangent scale3_def)
  have u: "cross3 (Point3 (- sin t) (cos t) 0) (Point3 (- cos t) (- sin t) 0) = Point3 0 0 1"
    by (simp add: cross3_def power2_eq_square [symmetric])
  show ?thesis
    by (simp only: Lookat_def f c r u option.case)
qed

lemma angles8: "linspace 0 (2 * pi) 8 False = map (\<lambda>k. real k * (pi / 4)) [0..<8]"
  by (simp add: linspace_def)

lemma upt8: "[0..<8] = [0, 1, 2, 3, 4, 5, 6, 7::nat]"
  by (simp add: upt_rec)

lemma createPoses_loop_ring:
  assumes "0 < r"
  shows "createPoses_loop r (Point3 0 0 1) (Point3 0 0 0) angles poses =
           Inr (poses @ map (ring_pose r) angles)"
proof (induction angles arbitrary: poses)
  case Nil
  show ?case by simp
next
  case (Cons theta angles)
  show ?case
    by (simp add: Lookat_ring [OF assms] Cons.IH ring_pose_def)
qed

lemma createPoses_ring:
  "createPoses = Inr (map (\<lambda>k. ring_pose 30 (real k * (pi / 4))) [0..<8])"
proof -
  have "createPoses = Inr (map (ring_pose 30) (linspace 0 (2 * pi) 8 False))"
    by (simp add: createPoses_def createPoses_loop_ring)
  then show ?thesis
    by (simp only: angles8 map_map o_def)
qed













lemma ring_pose_rotation:
  "mat_mult (transpose3 (rotation_matrix (orientation (ring_pose r t))))
            (rotation_matrix (orientation (ring_pose r t))) = identity3"
  by (simp add: mat_mult_def transpose3_def rotation_matrix_def from_columns_def identity3_def
      ring_pose_def col1_def col2_def col3_def dot3_def scale3_def power2_eq_square [symmetric])

lemma ring_pose_det: "det3 (rotation_matrix (orientation (ring_pose r t))) = 1"
  by (simp add: det3_def rotation_matrix_def from_columns_def ring_pose_def scale3_def
      power2_eq_square [symmetric])

lemma neg_sin_cos_squared: "- (sin t)\<^sup>2 - (cos t)\<^sup>2 = - 1" for t :: real
  using sin_cos_squared_add [of t] by linarith

text \<open>
  A remark on the column order: the same three axes taken in the order
  (right, up, forward) form a left-handed frame.
\<close>

lemma ring_pose_frame_det: "det3 (frame_matrix (orientation (ring_pose r t))) = - 1"
  by (simp add: det3_def frame_matrix_def from_columns_def ring_pose_def
      power2_eq_square [symmetric] neg_sin_cos_squared)

lemma ring_pose_axes:
  "forward_axis (orientation (ring_pose 30 t)) = the (normalize3 (sub3 (Point3 0 0 0) (position (ring_pose 30 t))))"
  "normalize3 (sub3 (Point3 0 0 0) (position (ring_pose 30 t))) = Some (forward_axis (orientation (ring_pose 30 t)))"
  "normalize3 (cross3 (forward_axis (orientation (ring_pose 30 t))) (Point3 0 0 1)) = Some (right_axis (orientation (ring_pose 30 t)))"
  "up_axis (orientation (ring_pose 30 t)) = cross3 (right_axis (orientation (ring_pose 30 t))) (forward_axis (orientation (ring_pose 30 t)))"
proof -
  have s: "sub3 (Point3 0 0 0) (Point3 (30 * cos t) (30 * sin t) 0) =
             scale3 30 (Point3 (- cos t) (- sin t) 0)"
    by (simp add: sub3_def scale3_def)
  have f: "normalize3 (sub3 (Point3 0 0 0) (Point3 (30 * cos t) (30 * sin t) 0)) =
             Some (Point3 (- cos t) (- sin t) 0)"
    unfolding s by (rule normalize3_scaled [OF norm3_unit_ring]) simp
  show "normalize3 (sub3 (Point3 0 0 0) (position (ring_pose 30 t))) = Some (forward_axis (orientation (ring_pose 30 t)))"
    by (simp add: ring_pose_def f)
  then show "forward_axis (orientation (ring_pose 30 t)) = the (normalize3 (sub3 (Point3 0 0 0) (position (ring_pose 30 t))))"
    by simp
  show "normalize3 (cross3 (forward_axis (orientation (ring_pose 30 t))) (Point3 0 0 1)) = Some (right_axis (orientation (ring_pose 30 t)))"
    by (simp add: ring_pose_def cross3_def normalize3_def norm3_unit_tangent scale3_def)
  show "up_axis (orientation (ring_pose 30 t)) = cross3 (right_axis (orientation (ring_pose 30 t))) (forward_axis (orientation (ring_pose 30 t)))"
    by (simp add: ring_pose_def cross3_def power2_eq_square [symmetric])
qed

lemma createPoses_on_ring:
  "\<exists>ps. createPoses = Inr ps \<and> length ps = 8 \<and> (\<forall>p\<in>set ps. \<exists>t. p = ring_pose 30 t)"
  unfolding createPoses_ring by auto

lemma createPoses_first:
  "createPoses = Inr ps \<Longrightarrow> ps ! 0 \<in> set ps \<and> ps ! 0 = ring_pose 30 0"
  unfolding createPoses_ring by (auto simp: upt8)

lemma ring_pose_step:
  "norm3 (add3 (position (ring_pose 30 a)) (scale3 t (forward_axis (orientation (ring_pose 30 a)))))
     = \<bar>30 - t\<bar>"
proof -
  have "add3 (position (ring_pose 30 a)) (scale3 t (forward_axis (orientation (ring_pose 30 a))))
          = Point3 ((30 - t) * cos a) ((30 - t) * sin a) 0"
    by (simp add: ring_pose_def add3_def scale3_def algebra_simps)
  then show ?thesis
    by (simp only: norm3_ring)
qed

lemma ring_pose_norm: "norm3 (position (ring_pose 30 a)) = 30"
  using norm3_ring [of 30 a] by (simp add: ring_pose_def)



text \<open>
  The error of the look-at construction is reachable on other inputs: an eye straight
  below the target makes forward parallel to the up hint, and an eye at the target has
  no forward direction.
\<close>

lemma Lookat_degenerate_vertical:
  "Lookat (Point3 0 0 (- 30)) (Point3 0 0 0) (Point3 0 0 1) = Inl DegenerateLookat"
proof -
  have s: "sub3 (Point3 0 0 0) (Point3 0 0 (- 30)) = scale3 30 (Point3 0 0 1)"
    by (simp add: sub3_def scale3_def)
  have n: "norm3 (Point3 0 0 1) = 1"
    by (simp add: norm3_def dot3_def)
  have f: "normalize3 (sub3 (Point3 0 0 0) (Point3 0 0 (- 30))) = Some (Point3 0 0 1)"
    unfolding s by (rule normalize3_scaled [OF n]) simp
  have c: "normalize3 (cross3 (Point3 0 0 1) (Point3 0 0 1)) = None"
    by (simp add: normalize3_def cross3_def norm3_def dot3_def)
  show ?thesis
    by (simp only: Lookat_def f c option.case)
qed

lemma Lookat_degenerate_eye_is_target:
  "Lookat (Point3 0 0 0) (Point3 0 0 0) (Point3 0 0 1) = Inl DegenerateLookat"
  by (simp add: Lookat_def normalize3_def sub3_def norm3_def dot3_def)

lemma alloc_points_closed:
  "alloc_points ps h = (map (\<lambda>i. length h + i) [0..<length ps], h @ map PointObj ps)"
proof (induction ps arbitrary: h)
  case Nil
  show ?case by simp
next
  case (Cons p ps)
  have "map (\<lambda>i. length h + i) [0..<Suc (length ps)] =
          length h # map (\<lambda>i. Suc (length h + i)) [0..<length ps]"
    by (simp only: upt_conv_Cons zero_less_Suc map_Suc_upt [symmetric] list.map map_map o_def)
       simp
  then show ?case
    by (simp add: alloc_def Cons.IH)
qed

lemma createPoints_heap_closed:
  "createPoints_heap h =
     (length h + 8,
      h @ map PointObj createPoints @ [ListObj (map (\<lambda>i. length h + i) [0..<8])])"
proof -
  have l: "length createPoints = 8" by (simp add: createPoints_def)
  show ?thesis
    by (simp add: createPoints_heap_def alloc_points_closed alloc_def l)
qed

lemma Lookat_ring_pose:
  "0 < r \<Longrightarrow> Lookat (Point3 (r * cos t) (r * sin t) 0) (Point3 0 0 0) (Point3 0 0 1) =
     Inr (PinholeCameraCal3_S2 (ring_pose r t))"
  by (simp add: Lookat_ring ring_pose_def)

lemma ring_index: "map (\<lambda>i. n + 3 * i + 2) [0..<Suc m] =
          (n + 2) # map (\<lambda>i. n + 3 + 3 * i + 2) [0..<m]" for n m :: nat
proof -
  have "[0..<Suc m] = 0 # map Suc [0..<m]"
    by (simp only: upt_conv_Cons zero_less_Suc map_Suc_upt)
  then show ?thesis by (simp add: o_def)
qed

lemma createPoses_heap_loop_closed:
  assumes "0 < r"
  shows "up < length h \<Longrightarrow> h ! up = PointObj (Point3 0 0 1) \<Longrightarrow>
     target < length h \<Longrightarrow> h ! target = PointObj (Point3 0 0 0) \<Longrightarrow>
     poses < length h \<Longrightarrow> h ! poses = ListObj xs \<Longrightarrow>
     createPoses_heap_loop r up target thetas poses h =
       Inr ((h @ concat (map (ring_cell r) thetas))
              [poses := ListObj (xs @ map (\<lambda>i. length h + 3 * i + 2) [0..<length thetas])])"
proof (induction thetas arbitrary: h xs)
  case Nil
  then have "h[poses := ListObj xs] = h"
    by (metis list_update_id)
  then show ?case by simp
next
  case (Cons theta thetas)
  let ?h3 = "h @ ring_cell r theta"
  let ?h4 = "?h3[poses := ListObj (xs @ [length h + 2])]"
  have pu: "poses \<noteq> up" "poses \<noteq> target"
    using Cons.prems by auto
  have step: "createPoses_heap_loop r up target (theta # thetas) poses h =
                createPoses_heap_loop r up target thetas poses ?h4"
    using Cons.prems
    by (simp add: alloc_def get_point_def lookup_def nth_append Lookat_ring_pose [OF assms]
        list_append_def ring_cell_def)
  have ih: "createPoses_heap_loop r up target thetas poses ?h4 =
       Inr ((?h4 @ concat (map (ring_cell r) thetas))
              [poses := ListObj ((xs @ [length h + 2]) @
                 map (\<lambda>i. length ?h4 + 3 * i + 2) [0..<length thetas])])"
    using Cons.prems pu
    by (intro Cons.IH) (simp_all add: nth_append ring_cell_def)
  have len: "length ?h4 = length h + 3"
    by (simp add: ring_cell_def)
  have upd: "(?h4 @ ys)[poses := v] = (h @ ring_cell r theta @ ys)[poses := v]" for ys v
    using Cons.prems by (simp add: list_update_append)
  have idx: "map (\<lambda>i. length h + 3 * i + 2) [0..<length (theta # thetas)] =
               (length h + 2) # map (\<lambda>i. length h + 3 + 3 * i + 2) [0..<length thetas]"
    using ring_index [of "length h" "length thetas"] by (simp only: length_Cons)
  show ?case
    unfolding step ih len upd idx
    by simp
qed

lemma those_map_Some:
  "(\<And>x. x \<in> set xs \<Longrightarrow> f x = Some (g x)) \<Longrightarrow> those (map f xs) = Some (map g xs)"
  by (induction xs) simp_all

lemma those_Some_defined:
  "those (map f xs) = Some v \<Longrightarrow> x \<in> set xs \<Longrightarrow> f x \<noteq> None"
  by (induction xs arbitrary: v) (auto split: option.splits)

lemma lookup_extend:
  assumes "take (length h) h' = h" and "a < length h"
  shows "lookup h' a = lookup h a"
proof -
  have l: "length h \<le> length h'"
    using assms(1) by (metis length_take min.cobounded1)
  have "h' ! a = take (length h) h' ! a"
    using assms(2) by simp
  then have "h' ! a = h ! a"
    using assms(1) by simp
  with l assms(2) show ?thesis
    by (simp add: lookup_def)
qed

lemma pose_at_extend:
  assumes "take (length h) h' = h" and "pose_at h a \<noteq> None"
  shows "pose_at h' a = pose_at h a"
proof -
  from assms(2) have "a < length h"
    by (auto simp: pose_at_def lookup_def split: if_splits)
  from lookup_extend [OF assms(1) this] show ?thesis
    by (simp add: pose_at_def)
qed

lemma point_at_extend:
  assumes "take (length h) h' = h" and "point_at h a \<noteq> None"
  shows "point_at h' a = point_at h a"
proof -
  from assms(2) have "a < length h"
    by (auto simp: point_at_def lookup_def split: if_splits)
  from lookup_extend [OF assms(1) this] show ?thesis
    by (simp add: point_at_def)
qed

lemma poses_of_extend:
  assumes "take (length h) h' = h" and "poses_of h a = Some v"
  shows "poses_of h' a = Some v"
proof -
  from assms(2) obtain xs where l: "lookup h a = Some (ListObj xs)"
    and t: "those (map (pose_at h) xs) = Some v"
    by (auto simp: poses_of_def split: option.splits obj.splits)
  from l have "a < length h"
    by (auto simp: lookup_def split: if_splits)
  from lookup_extend [OF assms(1) this] l have l': "lookup h' a = Some (ListObj xs)"
    by simp
  have m: "map (pose_at h') xs = map (pose_at h) xs"
  proof (rule map_cong [OF refl])
    fix x assume "x \<in> set xs"
    with t have "pose_at h x \<noteq> None" by (rule those_Some_defined)
    with assms(1) show "pose_at h' x = pose_at h x" by (rule pose_at_extend)
  qed
  show ?thesis
    by (simp only: poses_of_def l' m t option.case obj.case)
qed

lemma points_of_extend:
  assumes "take (length h) h' = h" and "points_of h a = Some v"
  shows "points_of h' a = Some v"
proof -
  from assms(2) obtain xs where l: "lookup h a = Some (ListObj xs)"
    and t: "those (map (point_at h) xs) = Some v"
    by (auto simp: points_of_def split: option.splits obj.splits)
  from l have "a < length h"
    by (auto simp: lookup_def split: if_splits)
  from lookup_extend [OF assms(1) this] l have l': "lookup h' a = Some (ListObj xs)"
    by simp
  have m: "map (point_at h') xs = map (point_at h) xs"
  proof (rule map_cong [OF refl])
    fix x assume "x \<in> set xs"
    with t have "point_at h x \<noteq> None" by (rule those_Some_defined)
    with assms(1) show "point_at h' x = point_at h x" by (rule point_at_extend)
  qed
  show ?thesis
    by (simp only: points_of_def l' m t option.case obj.case)
qed

lemma createPoints_heap_frame: "take (length h) (snd (createPoints_heap h)) = h"
  by (simp add: createPoints_heap_closed)

lemma createPoints_heap_read:
  "points_of (snd (createPoints_heap h)) (fst (createPoints_heap h)) = Some createPoints"
proof -
  let ?H = "h @ map PointObj createPoints @ [ListObj (map (\<lambda>i. length h + i) [0..<8])]"
  have l: "length createPoints = 8" by (simp add: createPoints_def)
  have a: "lookup ?H (length h + 8) = Some (ListObj (map (\<lambda>i. length h + i) [0..<8]))"
    by (simp add: lookup_def l nth_append)
  have p: "point_at ?H (length h + i) = Some (createPoints ! i)" if "i < 8" for i
    using that by (simp add: point_at_def lookup_def l nth_append)
  have "those (map (point_at ?H) (map (\<lambda>i. length h + i) [0..<8])) =
          Some (map (\<lambda>i. createPoints ! i) [0..<8])"
    unfolding map_map o_def by (rule those_map_Some) (simp add: p)
  also have "map (\<lambda>i. createPoints ! i) [0..<8] = createPoints"
    using map_nth [of createPoints] by (simp only: l)
  finally show ?thesis
    by (simp add: createPoints_heap_closed points_of_def a)
qed

lemma ring_cells_length: "length (concat (map (ring_cell r) ts)) = 3 * length ts"
  by (induction ts) (simp_all add: ring_cell_def)

lemma ring_cells_nth:
  "i < length ts \<Longrightarrow> concat (map (ring_cell r) ts) ! (3 * i + 2) = PoseObj (ring_pose r (ts ! i))"
proof (induction ts arbitrary: i)
  case Nil
  then show ?case by simp
next
  case (Cons t ts)
  show ?case
  proof (cases i)
    case 0
    then show ?thesis by (simp add: ring_cell_def)
  next
    case (Suc j)
    with Cons.prems have j: "j < length ts" by simp
    have "concat (map (ring_cell r) (t # ts)) ! (3 * Suc j + 2) =
            concat (map (ring_cell r) ts) ! (3 * j + 2)"
      by (simp add: ring_cell_def nth_append)
    with Cons.IH [OF j] Suc show ?thesis by simp
  qed
qed

lemma length_angles: "length (linspace 0 (2 * pi) 8 False) = 8"
  by (simp add: angles8)

lemma createPoses_heap_closed: "createPoses_heap h = Inr (length h + 3, ring_heap h)"
proof -
  let ?A = "linspace 0 (2 * pi) 8 False"
  let ?h4 = "h @ [ArrayObj ?A, PointObj (Point3 0 0 1), PointObj (Point3 0 0 0), ListObj []]"
  have e: "length h + 3 = Suc (Suc (Suc (length h)))" by simp
  have pos: "0 < (30::real)" by simp
  have u: "length h + 1 < length ?h4" "?h4 ! (length h + 1) = PointObj (Point3 0 0 1)"
    "length h + 2 < length ?h4" "?h4 ! (length h + 2) = PointObj (Point3 0 0 0)"
    "length h + 3 < length ?h4" "?h4 ! (length h + 3) = ListObj []"
    by (simp_all add: nth_append)
  have idx: "length ?h4 + 3 * i + 2 = length h + 4 + 3 * i + 2" for i
    by simp
  have loop: "createPoses_heap_loop 30 (length h + 1) (length h + 2) ?A (length h + 3) ?h4 =
          Inr ((?h4 @ concat (map (ring_cell 30) ?A))
              [length h + 3 := ListObj ([] @ map (\<lambda>i. length ?h4 + 3 * i + 2) [0..<length ?A])])"
    by (rule createPoses_heap_loop_closed [OF pos u])
  have r: "(?h4 @ concat (map (ring_cell 30) ?A))
              [length h + 3 := ListObj ([] @ map (\<lambda>i. length ?h4 + 3 * i + 2) [0..<length ?A])]
             = ring_heap h"
    unfolding idx length_angles ring_heap_def by (simp only: append_Nil append_assoc)
  have "createPoses_heap h =
          (case createPoses_heap_loop 30 (length h + 1) (length h + 2) ?A (length h + 3) ?h4 of
             Inl e \<Rightarrow> Inl e | Inr h5 \<Rightarrow> Inr (length h + 3, h5))"
    by (simp add: createPoses_heap_def alloc_def get_array_def lookup_def nth_append e
        cong: sum.case_cong)
  then show ?thesis
    by (simp only: loop r sum.case)
qed

lemma ring_heap_frame: "take (length h) (ring_heap h) = h"
  by (simp add: ring_heap_def)

lemma ring_heap_length: "length (ring_heap h) = length h + 28"
  by (simp add: ring_heap_def ring_cells_length length_angles)

lemma ring_heap_read:
  "poses_of (ring_heap h) (length h + 3) = Some (map (ring_pose 30) (linspace 0 (2 * pi) 8 False))"
proof -
  let ?A = "linspace 0 (2 * pi) 8 False"
  let ?C = "concat (map (ring_cell 30) ?A)"
  have a: "lookup (ring_heap h) (length h + 3) =
             Some (ListObj (map (\<lambda>i. length h + 4 + 3 * i + 2) [0..<8]))"
    by (simp add: lookup_def ring_heap_length) (simp add: ring_heap_def)
  have p: "pose_at (ring_heap h) (length h + 4 + 3 * i + 2) = Some (ring_pose 30 (?A ! i))"
    if "i < 8" for i
  proof -
    have "ring_heap h ! (length h + 4 + 3 * i + 2) = ?C ! (3 * i + 2)"
      by (simp add: ring_heap_def nth_append)
    also have "\<dots> = PoseObj (ring_pose 30 (?A ! i))"
      using that by (intro ring_cells_nth) (simp add: length_angles)
    finally show ?thesis
      using that by (simp add: pose_at_def lookup_def ring_heap_length)
  qed
  have "those (map (pose_at (ring_heap h)) (map (\<lambda>i. length h + 4 + 3 * i + 2) [0..<8])) =
          Some (map (\<lambda>i. ring_pose 30 (?A ! i)) [0..<8])"
    unfolding map_map o_def
  proof (rule those_map_Some)
    fix x :: nat
    assume "x \<in> set [0..<8]"
    then have "x < 8" by simp
    then show "pose_at (ring_heap h) (length h + 4 + 3 * x + 2) = Some (ring_pose 30 (?A ! x))"
      by (rule p)
  qed
  also have "map (\<lambda>i. ring_pose 30 (?A ! i)) [0..<8] = map (ring_pose 30) (map (\<lambda>i. ?A ! i) [0..<8])"
    by (simp only: map_map o_def)
  also have "map (\<lambda>i. ?A ! i) [0..<8] = ?A"
    using map_nth [of ?A] by (simp only: length_angles)
  finally show ?thesis
    by (simp only: poses_of_def a option.case obj.case)
qed

lemma createPoses_value: "createPoses = Inr (map (ring_pose 30) (linspace 0 (2 * pi) 8 False))"
  by (simp add: createPoses_def createPoses_loop_ring)

lemma createPoses_np_exact: "createPoses_np pi = createPoses"
  by (simp add: createPoses_np_def createPoses_def)

lemma angles8_np: "linspace 0 (2 * p) 8 False = map (\<lambda>k. real k * (p / 4)) [0..<8]"
  by (simp add: linspace_def)

lemma createPoses_np_ring:
  "createPoses_np p = Inr (map (\<lambda>k. ring_pose 30 (real k * (p / 4))) [0..<8])"
proof -
  have "createPoses_np p = Inr (map (ring_pose 30) (linspace 0 (2 * p) 8 False))"
    by (simp add: createPoses_np_def createPoses_loop_ring)
  then show ?thesis
    by (simp only: angles8_np map_map o_def)
qed

lemma arctan_brackets:
  assumes "0 < x" and "x \<le> 1"
  shows "arctan_sum (2 * n) x \<le> arctan x" and "arctan x \<le> arctan_sum (2 * n + 1) x"
proof -
  let ?a = "\<lambda>n. 1 / real (n * 2 + 1) * x ^ (n * 2 + 1)"
  from assms have ax: "\<bar>x\<bar> \<le> 1" by simp
  have pos: "0 < ?a 0" using assms by simp
  from summable_Leibniz(2) [OF zeroseq_arctan_series [OF ax] monoseq_arctan_series [OF ax]] pos
  have "(\<Sum>i. (- 1) ^ i * ?a i) \<in> {\<Sum>i<2 * n. (- 1) ^ i * ?a i .. \<Sum>i<2 * n + 1. (- 1) ^ i * ?a i}"
    by blast
  then show "arctan_sum (2 * n) x \<le> arctan x" and "arctan x \<le> arctan_sum (2 * n + 1) x"
    by (simp_all only: arctan_series [OF ax] arctan_sum_def atLeastAtMost_iff)
qed

lemma arctan_sum_Suc:
  "arctan_sum (Suc n) x = arctan_sum n x + (- 1) ^ n * (1 / real (n * 2 + 1) * x ^ (n * 2 + 1))"
  by (simp add: arctan_sum_def)

lemma arctan_sum_0: "arctan_sum 0 x = 0"
  by (simp add: arctan_sum_def)

lemma np_pi_below_machin: "np_pi < 16 * arctan_sum 12 (1 / 5) - 4 * arctan_sum 3 (1 / 239)"
  by (simp add: np_pi_def eval_nat_numeral arctan_sum_Suc arctan_sum_0)

lemma np_pi_above_machin:
  "16 * arctan_sum 13 (1 / 5) - 4 * arctan_sum 4 (1 / 239) < np_pi + 1 / 2 ^ 52"
  by (simp add: np_pi_def eval_nat_numeral arctan_sum_Suc arctan_sum_0)

lemma np_pi_less_pi: "np_pi < pi"
proof -
  have a: "arctan_sum 12 (1 / 5) \<le> arctan (1 / 5)"
    using arctan_brackets(1) [of "1 / 5" 6] by simp
  have b: "arctan (1 / 239) \<le> arctan_sum 3 (1 / 239)"
    using arctan_brackets(2) [of "1 / 239" 1] by simp
  have "pi = 16 * arctan (1 / 5) - 4 * arctan (1 / 239)"
    using machin by simp
  with a b np_pi_below_machin show ?thesis by linarith
qed

lemma pi_less_np_pi_ulp: "pi < np_pi + 1 / 2 ^ 52"
proof -
  have a: "arctan (1 / 5) \<le> arctan_sum 13 (1 / 5)"
    using arctan_brackets(2) [of "1 / 5" 6] by simp
  have b: "arctan_sum 4 (1 / 239) \<le> arctan (1 / 239)"
    using arctan_brackets(1) [of "1 / 239" 2] by simp
  have "pi = 16 * arctan (1 / 5) - 4 * arctan (1 / 239)"
    using machin by simp
  with a b np_pi_above_machin show ?thesis by linarith
qed

lemma cos_lipschitz: "\<bar>cos a - cos b\<bar> \<le> \<bar>a - b\<bar>" for a b :: real
proof -
  have "\<bar>cos a - cos b\<bar> = 2 * \<bar>sin ((a + b) / 2)\<bar> * \<bar>sin ((b - a) / 2)\<bar>"
    by (simp add: cos_diff_cos abs_mult)
  also have "\<dots> \<le> 2 * 1 * \<bar>(b - a) / 2\<bar>"
    by (intro mult_mono mult_nonneg_nonneg abs_sin_le_one abs_sin_x_le_abs_x) simp_all
  also have "\<dots> = \<bar>a - b\<bar>" by simp
  finally show ?thesis .
qed

lemma sin_lipschitz: "\<bar>sin a - sin b\<bar> \<le> \<bar>a - b\<bar>" for a b :: real
proof -
  have "\<bar>sin a - sin b\<bar> = 2 * \<bar>sin ((a - b) / 2)\<bar> * \<bar>cos ((a + b) / 2)\<bar>"
    by (simp add: sin_diff_sin abs_mult)
  also have "\<dots> \<le> 2 * \<bar>(a - b) / 2\<bar> * 1"
    by (intro mult_mono mult_nonneg_nonneg abs_cos_le_one abs_sin_x_le_abs_x) simp_all
  also have "\<dots> = \<bar>a - b\<bar>" by simp
  finally show ?thesis .
qed

lemma np_pi_pos: "0 < np_pi"
  by (simp add: np_pi_def)

lemma np_pi_close: "\<bar>np_pi - pi\<bar> \<le> 1 / 2 ^ 52"
  using np_pi_less_pi pi_less_np_pi_ulp by linarith

lemma ulp_small: "(2::real) * (1 / 2 ^ 52) \<le> 1 / (3 * 10 ^ 10)"
  by simp

lemma np_angle_close:
  assumes "k < 8"
  shows "\<bar>real k * (np_pi / 4) - 2 * pi * real k / 8\<bar> \<le> 1 / (3 * 10 ^ 10)"
proof -
  have e: "real k * (np_pi / 4) - 2 * pi * real k / 8 = (real k / 4) * (np_pi - pi)"
    by (simp add: field_simps)
  have "\<bar>(real k / 4) * (np_pi - pi)\<bar> = (real k / 4) * \<bar>np_pi - pi\<bar>"
    by (simp add: abs_mult)
  also have "\<dots> \<le> 2 * (1 / 2 ^ 52)"
  proof (rule mult_mono)
    show "real k / 4 \<le> 2" using assms by simp
    show "\<bar>np_pi - pi\<bar> \<le> 1 / 2 ^ 52" by (rule np_pi_close)
    show "(0::real) \<le> 2" by simp
    show "0 \<le> \<bar>np_pi - pi\<bar>" by simp
  qed
  also note ulp_small
  finally show ?thesis unfolding e .
qed

lemma abs_scale30: "\<bar>30 * x - 30 * y\<bar> = 30 * \<bar>x - y\<bar>" for x y :: real
proof -
  have "30 * x - 30 * y = 30 * (x - y)" by (simp add: algebra_simps)
  then have "\<bar>30 * x - 30 * y\<bar> = \<bar>30\<bar> * \<bar>x - y\<bar>" by (simp only: abs_mult)
  then show ?thesis by simp
qed

lemma np_position_close:
  assumes "k < 8"
  shows "\<bar>30 * cos (real k * (np_pi / 4)) - 30 * cos (2 * pi * real k / 8)\<bar> \<le> 1 / 10 ^ 9"
    and "\<bar>30 * sin (real k * (np_pi / 4)) - 30 * sin (2 * pi * real k / 8)\<bar> \<le> 1 / 10 ^ 9"
proof -
  let ?a = "real k * (np_pi / 4)" and ?b = "2 * pi * real k / 8"
  have t: "(30::real) * (1 / (3 * 10 ^ 10)) = 1 / 10 ^ 9" by simp
  have c: "\<bar>cos ?a - cos ?b\<bar> \<le> 1 / (3 * 10 ^ 10)"
    using cos_lipschitz [of ?a ?b] np_angle_close [OF assms] by (rule order_trans)
  have s: "\<bar>sin ?a - sin ?b\<bar> \<le> 1 / (3 * 10 ^ 10)"
    using sin_lipschitz [of ?a ?b] np_angle_close [OF assms] by (rule order_trans)
  have "\<bar>30 * cos ?a - 30 * cos ?b\<bar> = 30 * \<bar>cos ?a - cos ?b\<bar>"
    by (rule abs_scale30)
  also have "\<dots> \<le> 30 * (1 / (3 * 10 ^ 10))"
    using c by (rule mult_left_mono) simp
  finally show "\<bar>30 * cos ?a - 30 * cos ?b\<bar> \<le> 1 / 10 ^ 9"
    unfolding t .
  have "\<bar>30 * sin ?a - 30 * sin ?b\<bar> = 30 * \<bar>sin ?a - sin ?b\<bar>"
    by (rule abs_scale30)
  also have "\<dots> \<le> 30 * (1 / (3 * 10 ^ 10))"
    using s by (rule mult_left_mono) simp
  finally show "\<bar>30 * sin ?a - 30 * sin ?b\<bar> \<le> 1 / 10 ^ 9"
    unfolding t .
qed

lemma np_quarter_turn: "0 < cos (np_pi / 2)" "0 < sin np_pi"
proof -
  have "0 < np_pi / 2" "np_pi / 2 < pi / 2"
    using np_pi_pos np_pi_less_pi by simp_all
  then show "0 < cos (np_pi / 2)" by (rule cos_gt_zero)
  show "0 < sin np_pi" using np_pi_pos np_pi_less_pi by (rule sin_gt_zero)
qed

lemma np_position_2:
  "\<bar>30 * cos (np_pi / 2) - 0\<bar> \<le> 1 / 10 ^ 9" "\<bar>30 * sin (np_pi / 2) - 30\<bar> \<le> 1 / 10 ^ 9"
proof -
  have k: "(2::nat) < 8" by simp
  have a: "real 2 * (np_pi / 4) = np_pi / 2" "2 * pi * real 2 / 8 = pi / 2" by simp_all
  from np_position_close(1) [OF k] show "\<bar>30 * cos (np_pi / 2) - 0\<bar> \<le> 1 / 10 ^ 9"
    unfolding a by (simp only: cos_pi_half mult_zero_right)
  from np_position_close(2) [OF k] show "\<bar>30 * sin (np_pi / 2) - 30\<bar> \<le> 1 / 10 ^ 9"
    unfolding a by (simp only: sin_pi_half mult_1_right)
qed

lemma np_position_4:
  "\<bar>30 * cos np_pi - (- 30)\<bar> \<le> 1 / 10 ^ 9" "\<bar>30 * sin np_pi - 0\<bar> \<le> 1 / 10 ^ 9"
proof -
  have k: "(4::nat) < 8" by simp
  have a: "real 4 * (np_pi / 4) = np_pi" "2 * pi * real 4 / 8 = pi" by simp_all
  have m: "(30::real) * - 1 = - 30" by simp
  from np_position_close(1) [OF k] show "\<bar>30 * cos np_pi - (- 30)\<bar> \<le> 1 / 10 ^ 9"
    unfolding a by (simp only: cos_pi m)
  from np_position_close(2) [OF k] show "\<bar>30 * sin np_pi - 0\<bar> \<le> 1 / 10 ^ 9"
    unfolding a by (simp only: sin_pi mult_zero_right)
qed

lemma np_ring_nth:
  "k < 8 \<Longrightarrow> map (\<lambda>k. ring_pose 30 (real k * (p / 4))) [0..<8] ! k = ring_pose 30 (real k * (p / 4))"
  by simp

lemma np_ring_2: "map (\<lambda>k. ring_pose 30 (real k * (p / 4))) [0..<8] ! 2 = ring_pose 30 (p / 2)"
  using np_ring_nth [of 2 p] by simp

lemma np_ring_4: "map (\<lambda>k. ring_pose 30 (real k * (p / 4))) [0..<8] ! 4 = ring_pose 30 p"
  using np_ring_nth [of 4 p] by simp

lemma np_ring_0: "map (\<lambda>k. ring_pose 30 (real k * (p / 4))) [0..<8] ! 0 = ring_pose 30 0"
  using np_ring_nth [of 0 p] by simp

lemma np_angles_nth:
  "k < 8 \<Longrightarrow> linspace 0 (2 * np_pi) 8 False ! k = real k * (np_pi / 4)"
  by (simp add: angles8_np)

lemma np_angles_sorted: "sorted_wrt (<) (linspace 0 (2 * np_pi) 8 False)"
  using np_pi_pos by (simp add: angles8_np sorted_wrt_map)

lemma np_angles_range:
  assumes "a \<in> set (linspace 0 (2 * np_pi) 8 False)"
  shows "0 \<le> a \<and> a < 2 * np_pi \<and> a < 2 * pi"
proof -
  from assms obtain k :: nat where k: "k < 8" and a: "a = real k * (np_pi / 4)"
    by (auto simp: angles8_np)
  from k have "real k \<le> 7" by simp
  then have "real k * (np_pi / 4) \<le> 7 * (np_pi / 4)"
    using np_pi_pos by (intro mult_right_mono) simp_all
  moreover have "0 \<le> real k * (np_pi / 4)"
    using np_pi_pos by simp
  ultimately show ?thesis
    unfolding a using np_pi_pos np_pi_less_pi by linarith
qed

lemma np_angles_step:
  assumes "k < 7"
  shows "\<bar>linspace 0 (2 * np_pi) 8 False ! Suc k - linspace 0 (2 * np_pi) 8 False ! k - pi / 4\<bar>
           \<le> 1 / 10 ^ 9"
proof -
  from assms have k: "k < 8" "Suc k < 8" by simp_all
  have s: "real (Suc k) * (np_pi / 4) - real k * (np_pi / 4) - pi / 4 = (np_pi - pi) / 4"
    by (simp add: field_simps)
  have c: "\<bar>(np_pi - pi) / 4\<bar> \<le> 1 / 10 ^ 9"
    using np_pi_close by simp
  show ?thesis
    unfolding np_angles_nth [OF k(1)] np_angles_nth [OF k(2)] s by (rule c)
qed

section \<open>The landmarks\<close>

text \<open>
  C1. createPoints() returns exactly 8 points, in the order (10,10,10), (-10,10,10),
  (-10,-10,10), (10,-10,10), (10,10,-10), (-10,10,-10), (-10,-10,-10), (10,-10,-10);
  the set of the returned points is the set of all sign combinations
  (\<plusminus>10, \<plusminus>10, \<plusminus>10).
\<close>

theorem createPoints_cube:
  "createPoints =
     [Point3 10 10 10, Point3 (-10) 10 10, Point3 (-10) (-10) 10, Point3 10 (-10) 10,
      Point3 10 10 (-10), Point3 (-10) 10 (-10), Point3 (-10) (-10) (-10),
      Point3 10 (-10) (-10)]
   \<and> length createPoints = 8
   \<and> set createPoints = {p. px p \<in> {10, -10} \<and> py p \<in> {10, -10} \<and> pz p \<in> {10, -10}}"
proof -
  have "set createPoints \<subseteq> {p. px p \<in> {10, -10} \<and> py p \<in> {10, -10} \<and> pz p \<in> {10, -10}}"
    by (simp add: createPoints_def)
  moreover have "p \<in> set createPoints"
    if "px p \<in> {10, -10} \<and> py p \<in> {10, -10} \<and> pz p \<in> {10, -10}" for p
    using that by (cases p) (auto simp: createPoints_def)
  ultimately show ?thesis
    by (auto simp: createPoints_def)
qed

section \<open>The ring of poses\<close>

text \<open>
  C2 (as amended). With \<^verbatim>\<open>np.pi\<close> the double nearest to \<^const>\<open>pi\<close>: for every index k
  in 0..7, each coordinate of the position of the k-th pose returned by createPoses() is
  within 1e-9 of (30 cos(2 pi k / 8), 30 sin(2 pi k / 8), 0), and the z-coordinate is 0.
  The angles are strictly increasing, each within 1e-9 of k * pi / 4 (0, 45, ..., 315
  degrees), consecutive ones differ by pi / 4 (45 degrees) up to 1e-9, and all are below
  2 pi (360 degrees is not included). The position for k = 0 is (30, 0, 0); the positions
  for k = 2 and k = 4 are within 1e-9 of (0, 30, 0) and (-30, 0, 0).
\<close>

theorem createPoses_np_positions:
  "\<exists>ps. createPoses_np np_pi = Inr ps \<and> length ps = 8 \<and>
     (\<forall>k<8. \<bar>px (position (ps ! k)) - 30 * cos (2 * pi * real k / 8)\<bar> \<le> 1 / 10 ^ 9 \<and>
            \<bar>py (position (ps ! k)) - 30 * sin (2 * pi * real k / 8)\<bar> \<le> 1 / 10 ^ 9 \<and>
            pz (position (ps ! k)) = 0) \<and>
     position (ps ! 0) = Point3 30 0 0 \<and>
     \<bar>px (position (ps ! 2)) - 0\<bar> \<le> 1 / 10 ^ 9 \<and>
     \<bar>py (position (ps ! 2)) - 30\<bar> \<le> 1 / 10 ^ 9 \<and>
     pz (position (ps ! 2)) = 0 \<and>
     \<bar>px (position (ps ! 4)) - (- 30)\<bar> \<le> 1 / 10 ^ 9 \<and>
     \<bar>py (position (ps ! 4)) - 0\<bar> \<le> 1 / 10 ^ 9 \<and>
     pz (position (ps ! 4)) = 0 \<and>
     length (linspace 0 (2 * np_pi) 8 False) = 8 \<and>
     sorted_wrt (<) (linspace 0 (2 * np_pi) 8 False) \<and>
     (\<forall>k<8. \<bar>linspace 0 (2 * np_pi) 8 False ! k - 2 * pi * real k / 8\<bar> \<le> 1 / 10 ^ 9) \<and>
     (\<forall>k<7. \<bar>linspace 0 (2 * np_pi) 8 False ! Suc k - linspace 0 (2 * np_pi) 8 False ! k - pi / 4\<bar>
              \<le> 1 / 10 ^ 9) \<and>
     (\<forall>a\<in>set (linspace 0 (2 * np_pi) 8 False). 0 \<le> a \<and> a < 2 * np_pi \<and> a < 2 * pi)"
proof -
  let ?ps = "map (\<lambda>k. ring_pose 30 (real k * (np_pi / 4))) [0..<8]"
  let ?A = "linspace 0 (2 * np_pi) 8 False"
  have l: "length ?ps = 8" by simp
  have p: "\<forall>k<8. \<bar>px (position (?ps ! k)) - 30 * cos (2 * pi * real k / 8)\<bar> \<le> 1 / 10 ^ 9 \<and>
            \<bar>py (position (?ps ! k)) - 30 * sin (2 * pi * real k / 8)\<bar> \<le> 1 / 10 ^ 9 \<and>
            pz (position (?ps ! k)) = 0"
  proof (intro allI impI conjI)
    fix k :: nat assume k: "k < 8"
    have e: "px (position (?ps ! k)) = 30 * cos (real k * (np_pi / 4))"
      "py (position (?ps ! k)) = 30 * sin (real k * (np_pi / 4))"
      unfolding np_ring_nth [OF k] by (simp_all add: ring_pose_def)
    show "\<bar>px (position (?ps ! k)) - 30 * cos (2 * pi * real k / 8)\<bar> \<le> 1 / 10 ^ 9"
      unfolding e by (rule np_position_close(1) [OF k])
    show "\<bar>py (position (?ps ! k)) - 30 * sin (2 * pi * real k / 8)\<bar> \<le> 1 / 10 ^ 9"
      unfolding e by (rule np_position_close(2) [OF k])
    show "pz (position (?ps ! k)) = 0"
      unfolding np_ring_nth [OF k] by (simp add: ring_pose_def)
  qed
  have p0: "position (?ps ! 0) = Point3 30 0 0"
    unfolding np_ring_0 by (simp add: ring_pose_def)
  have e2: "px (position (?ps ! 2)) = 30 * cos (np_pi / 2)"
    "py (position (?ps ! 2)) = 30 * sin (np_pi / 2)"
    unfolding np_ring_2 by (simp_all add: ring_pose_def)
  have e4: "px (position (?ps ! 4)) = 30 * cos np_pi"
    "py (position (?ps ! 4)) = 30 * sin np_pi"
    unfolding np_ring_4 by (simp_all add: ring_pose_def)
  have q2: "\<bar>px (position (?ps ! 2)) - 0\<bar> \<le> 1 / 10 ^ 9"
    unfolding e2 by (rule np_position_2(1))
  have q3: "\<bar>py (position (?ps ! 2)) - 30\<bar> \<le> 1 / 10 ^ 9"
    unfolding e2 by (rule np_position_2(2))
  have z2: "pz (position (?ps ! 2)) = 0"
    unfolding np_ring_2 by (simp add: ring_pose_def)
  have q4: "\<bar>px (position (?ps ! 4)) - (- 30)\<bar> \<le> 1 / 10 ^ 9"
    unfolding e4 by (rule np_position_4(1))
  have q5: "\<bar>py (position (?ps ! 4)) - 0\<bar> \<le> 1 / 10 ^ 9"
    unfolding e4 by (rule np_position_4(2))
  have z4: "pz (position (?ps ! 4)) = 0"
    unfolding np_ring_4 by (simp add: ring_pose_def)
  have a1: "length ?A = 8" by (simp add: angles8_np)
  have a3: "\<forall>k<8. \<bar>?A ! k - 2 * pi * real k / 8\<bar> \<le> 1 / 10 ^ 9"
  proof (intro allI impI)
    fix k :: nat assume k: "k < 8"
    have "(1::real) / (3 * 10 ^ 10) \<le> 1 / 10 ^ 9" by simp
    with np_angle_close [OF k] show "\<bar>?A ! k - 2 * pi * real k / 8\<bar> \<le> 1 / 10 ^ 9"
      unfolding np_angles_nth [OF k] by (rule order_trans)
  qed
  have a4: "\<forall>k<7. \<bar>?A ! Suc k - ?A ! k - pi / 4\<bar> \<le> 1 / 10 ^ 9"
    using np_angles_step by blast
  have a5: "\<forall>a\<in>set ?A. 0 \<le> a \<and> a < 2 * np_pi \<and> a < 2 * pi"
    using np_angles_range by blast
  show ?thesis
    by (intro exI [of _ ?ps] conjI)
       (rule createPoses_np_ring l p p0 q2 q3 z2 q4 q5 z4 a1 np_angles_sorted a3 a4 a5)+
qed

theorem createPoses_np_positions_witness:
  "\<exists>ps. createPoses_np np_pi = Inr ps \<and>
     \<bar>px (position (ps ! 1)) - 15 * sqrt 2\<bar> \<le> 1 / 10 ^ 9 \<and>
     \<bar>py (position (ps ! 1)) - 15 * sqrt 2\<bar> \<le> 1 / 10 ^ 9 \<and>
     pz (position (ps ! 1)) = 0 \<and>
     \<bar>linspace 0 (2 * np_pi) 8 False ! 1 - pi / 4\<bar> \<le> 1 / 10 ^ 9"
proof -
  obtain ps where ps: "createPoses_np np_pi = Inr ps"
    and pos: "\<forall>k<8. \<bar>px (position (ps ! k)) - 30 * cos (2 * pi * real k / 8)\<bar> \<le> 1 / 10 ^ 9 \<and>
            \<bar>py (position (ps ! k)) - 30 * sin (2 * pi * real k / 8)\<bar> \<le> 1 / 10 ^ 9 \<and>
            pz (position (ps ! k)) = 0"
    and ang: "\<forall>k<8. \<bar>linspace 0 (2 * np_pi) 8 False ! k - 2 * pi * real k / 8\<bar> \<le> 1 / 10 ^ 9"
    using createPoses_np_positions by blast
  have k: "(1::nat) < 8" by simp
  have v: "2 * pi * real 1 / 8 = pi / 4"
    by simp
  have w: "30 * cos (pi / 4) = 15 * sqrt 2" "30 * sin (pi / 4) = 15 * sqrt 2"
    by (simp_all add: cos_45 sin_45)
  from pos k have "\<bar>px (position (ps ! 1)) - 30 * cos (2 * pi * real 1 / 8)\<bar> \<le> 1 / 10 ^ 9 \<and>
            \<bar>py (position (ps ! 1)) - 30 * sin (2 * pi * real 1 / 8)\<bar> \<le> 1 / 10 ^ 9 \<and>
            pz (position (ps ! 1)) = 0"
    by blast
  then have 1: "\<bar>px (position (ps ! 1)) - 15 * sqrt 2\<bar> \<le> 1 / 10 ^ 9 \<and>
     \<bar>py (position (ps ! 1)) - 15 * sqrt 2\<bar> \<le> 1 / 10 ^ 9 \<and>
     pz (position (ps ! 1)) = 0"
    unfolding v w .
  from ang k have "\<bar>linspace 0 (2 * np_pi) 8 False ! 1 - 2 * pi * real 1 / 8\<bar> \<le> 1 / 10 ^ 9"
    by blast
  then have 2: "\<bar>linspace 0 (2 * np_pi) 8 False ! 1 - pi / 4\<bar> \<le> 1 / 10 ^ 9"
    unfolding v .
  from ps 1 2 show ?thesis by blast
qed

text \<open>
  The claim C2 as first stated says that the position for k = 2 is (0, 30, 0) and the
  one for k = 4 is (-30, 0, 0). They are not: the angle for k = 2 is \<open>np_pi / 2\<close>, below
  \<open>pi / 2\<close>, so the x-coordinate \<open>30 * cos (np_pi / 2)\<close> is positive (about
  \<open>1.8e-15\<close>), and the angle for k = 4 is \<open>np_pi\<close>, below \<open>pi\<close>, so the y-coordinate
  \<open>30 * sin np_pi\<close> is positive (about \<open>3.7e-15\<close>).
\<close>

theorem createPoses_np_positions_counterexample:
  "\<exists>ps. createPoses_np np_pi = Inr ps \<and> length ps = 8 \<and>
     px (position (ps ! 2)) = 30 * cos (np_pi / 2) \<and>
     0 < px (position (ps ! 2)) \<and>
     position (ps ! 2) \<noteq> Point3 0 30 0 \<and>
     py (position (ps ! 4)) = 30 * sin np_pi \<and>
     0 < py (position (ps ! 4)) \<and>
     position (ps ! 4) \<noteq> Point3 (- 30) 0 0"
proof -
  let ?ps = "map (\<lambda>k. ring_pose 30 (real k * (np_pi / 4))) [0..<8]"
  have 2: "px (position (?ps ! 2)) = 30 * cos (np_pi / 2)"
    unfolding np_ring_2 by (simp add: ring_pose_def)
  have 4: "py (position (?ps ! 4)) = 30 * sin np_pi"
    unfolding np_ring_4 by (simp add: ring_pose_def)
  from np_quarter_turn(1) have p2: "0 < px (position (?ps ! 2))"
    unfolding 2 by simp
  from np_quarter_turn(2) have p4: "0 < py (position (?ps ! 4))"
    unfolding 4 by simp
  have n2: "position (?ps ! 2) \<noteq> Point3 0 30 0"
  proof
    assume "position (?ps ! 2) = Point3 0 30 0"
    then have "px (position (?ps ! 2)) = 0" by simp
    with p2 show False by simp
  qed
  have n4: "position (?ps ! 4) \<noteq> Point3 (- 30) 0 0"
  proof
    assume "position (?ps ! 4) = Point3 (- 30) 0 0"
    then have "py (position (?ps ! 4)) = 0" by simp
    with p4 show False by simp
  qed
  have l: "length ?ps = 8" by simp
  show ?thesis
    by (intro exI [of _ ?ps] conjI) (rule createPoses_np_ring l 2 p2 n2 4 p4 n4)+
qed

text \<open>
  C3. For every pose returned by createPoses(), the orientation is an orthonormal
  right-handed frame: its rotation matrix R satisfies transpose(R) R = identity and det R = +1,
  and its axes are the ones of the look-at rule: forward = normalize(target - eye),
  right = normalize(forward \<times> up), recomputed up = right \<times> forward.
\<close>

theorem createPoses_orthonormal:
  "\<exists>ps. createPoses = Inr ps \<and>
     (\<forall>p\<in>set ps.
        mat_mult (transpose3 (rotation_matrix (orientation p))) (rotation_matrix (orientation p))
          = identity3 \<and>
        det3 (rotation_matrix (orientation p)) = 1 \<and>
        normalize3 (sub3 (Point3 0 0 0) (position p)) = Some (forward_axis (orientation p)) \<and>
        normalize3 (cross3 (forward_axis (orientation p)) (Point3 0 0 1))
          = Some (right_axis (orientation p)) \<and>
        up_axis (orientation p)
          = cross3 (right_axis (orientation p)) (forward_axis (orientation p)))"
proof -
  obtain ps where ps: "createPoses = Inr ps" and ring: "\<forall>p\<in>set ps. \<exists>t. p = ring_pose 30 t"
    using createPoses_on_ring by blast
  have "mat_mult (transpose3 (rotation_matrix (orientation p))) (rotation_matrix (orientation p))
          = identity3 \<and>
        det3 (rotation_matrix (orientation p)) = 1 \<and>
        normalize3 (sub3 (Point3 0 0 0) (position p)) = Some (forward_axis (orientation p)) \<and>
        normalize3 (cross3 (forward_axis (orientation p)) (Point3 0 0 1))
          = Some (right_axis (orientation p)) \<and>
        up_axis (orientation p)
          = cross3 (right_axis (orientation p)) (forward_axis (orientation p))"
    if "p \<in> set ps" for p
  proof -
    from ring that obtain t where p: "p = ring_pose 30 t" by blast
    show ?thesis
      unfolding p
      using ring_pose_rotation [of 30 t] ring_pose_det [of 30 t] ring_pose_axes(2,3,4) [of t]
      by (intro conjI)
  qed
  with ps show ?thesis by blast
qed

theorem createPoses_orthonormal_witness:
  "\<exists>ps. createPoses = Inr ps \<and>
     rotation_matrix (orientation (ps ! 0)) = Mat3 (Point3 0 0 (- 1)) (Point3 1 0 0) (Point3 0 (- 1) 0) \<and>
     mat_mult (transpose3 (rotation_matrix (orientation (ps ! 0))))
              (rotation_matrix (orientation (ps ! 0))) = identity3 \<and>
     det3 (rotation_matrix (orientation (ps ! 0))) = 1"
proof -
  obtain ps where ps: "createPoses = Inr ps"
    and all: "\<forall>p\<in>set ps.
        mat_mult (transpose3 (rotation_matrix (orientation p))) (rotation_matrix (orientation p))
          = identity3 \<and>
        det3 (rotation_matrix (orientation p)) = 1 \<and>
        normalize3 (sub3 (Point3 0 0 0) (position p)) = Some (forward_axis (orientation p)) \<and>
        normalize3 (cross3 (forward_axis (orientation p)) (Point3 0 0 1))
          = Some (right_axis (orientation p)) \<and>
        up_axis (orientation p)
          = cross3 (right_axis (orientation p)) (forward_axis (orientation p))"
    using createPoses_orthonormal by blast
  from createPoses_first [OF ps] have m: "ps ! 0 \<in> set ps" and v: "ps ! 0 = ring_pose 30 0"
    by blast+
  have r: "rotation_matrix (orientation (ps ! 0)) =
             Mat3 (Point3 0 0 (- 1)) (Point3 1 0 0) (Point3 0 (- 1) 0)"
    unfolding v by (simp add: rotation_matrix_def from_columns_def ring_pose_def scale3_def)
  from all m have "mat_mult (transpose3 (rotation_matrix (orientation (ps ! 0))))
              (rotation_matrix (orientation (ps ! 0))) = identity3 \<and>
     det3 (rotation_matrix (orientation (ps ! 0))) = 1"
    by blast
  with ps r show ?thesis by blast
qed

text \<open>
  C4. For every pose returned by createPoses(), the forward axis points from the pose's
  position toward the origin: forward = normalize((0,0,0) - position), and moving from
  the position along the forward axis strictly decreases the distance to the origin
  (for every step up to the origin, which is reached after 30 units, and the distance
  stays below 30 for every step shorter than 60).
\<close>

theorem createPoses_forward_to_origin:
  "\<exists>ps. createPoses = Inr ps \<and>
     (\<forall>p\<in>set ps.
        normalize3 (sub3 (Point3 0 0 0) (position p)) = Some (forward_axis (orientation p)) \<and>
        (\<forall>t. 0 < t \<and> t < 60 \<longrightarrow>
           norm3 (add3 (position p) (scale3 t (forward_axis (orientation p))))
             < norm3 (position p)) \<and>
        (\<forall>s t. 0 \<le> s \<and> s < t \<and> t \<le> 30 \<longrightarrow>
           norm3 (add3 (position p) (scale3 t (forward_axis (orientation p))))
             < norm3 (add3 (position p) (scale3 s (forward_axis (orientation p))))) \<and>
        add3 (position p) (scale3 30 (forward_axis (orientation p))) = Point3 0 0 0)"
proof -
  obtain ps where ps: "createPoses = Inr ps" and ring: "\<forall>p\<in>set ps. \<exists>t. p = ring_pose 30 t"
    using createPoses_on_ring by blast
  have "normalize3 (sub3 (Point3 0 0 0) (position p)) = Some (forward_axis (orientation p)) \<and>
        (\<forall>t. 0 < t \<and> t < 60 \<longrightarrow>
           norm3 (add3 (position p) (scale3 t (forward_axis (orientation p))))
             < norm3 (position p)) \<and>
        (\<forall>s t. 0 \<le> s \<and> s < t \<and> t \<le> 30 \<longrightarrow>
           norm3 (add3 (position p) (scale3 t (forward_axis (orientation p))))
             < norm3 (add3 (position p) (scale3 s (forward_axis (orientation p))))) \<and>
        add3 (position p) (scale3 30 (forward_axis (orientation p))) = Point3 0 0 0"
    if "p \<in> set ps" for p
  proof -
    from ring that obtain a where p: "p = ring_pose 30 a" by blast
    have 1: "normalize3 (sub3 (Point3 0 0 0) (position p)) = Some (forward_axis (orientation p))"
      unfolding p by (rule ring_pose_axes(2))
    have 2: "\<forall>t. 0 < t \<and> t < 60 \<longrightarrow>
           norm3 (add3 (position p) (scale3 t (forward_axis (orientation p))))
             < norm3 (position p)"
      unfolding p ring_pose_step ring_pose_norm by auto
    have 3: "\<forall>s t. 0 \<le> s \<and> s < t \<and> t \<le> 30 \<longrightarrow>
           norm3 (add3 (position p) (scale3 t (forward_axis (orientation p))))
             < norm3 (add3 (position p) (scale3 s (forward_axis (orientation p))))"
      unfolding p ring_pose_step by auto
    have 4: "add3 (position p) (scale3 30 (forward_axis (orientation p))) = Point3 0 0 0"
      unfolding p by (simp add: ring_pose_def add3_def scale3_def)
    from 1 2 3 4 show ?thesis by blast
  qed
  with ps show ?thesis by blast
qed

theorem createPoses_forward_to_origin_witness:
  "\<exists>ps. createPoses = Inr ps \<and>
     position (ps ! 0) = Point3 30 0 0 \<and>
     forward_axis (orientation (ps ! 0)) = Point3 (- 1) 0 0 \<and>
     normalize3 (sub3 (Point3 0 0 0) (position (ps ! 0))) = Some (forward_axis (orientation (ps ! 0))) \<and>
     norm3 (add3 (position (ps ! 0)) (scale3 1 (forward_axis (orientation (ps ! 0)))))
       < norm3 (position (ps ! 0))"
proof -
  obtain ps where ps: "createPoses = Inr ps"
    and all: "\<forall>p\<in>set ps.
        normalize3 (sub3 (Point3 0 0 0) (position p)) = Some (forward_axis (orientation p)) \<and>
        (\<forall>t. 0 < t \<and> t < 60 \<longrightarrow>
           norm3 (add3 (position p) (scale3 t (forward_axis (orientation p))))
             < norm3 (position p)) \<and>
        (\<forall>s t. 0 \<le> s \<and> s < t \<and> t \<le> 30 \<longrightarrow>
           norm3 (add3 (position p) (scale3 t (forward_axis (orientation p))))
             < norm3 (add3 (position p) (scale3 s (forward_axis (orientation p))))) \<and>
        add3 (position p) (scale3 30 (forward_axis (orientation p))) = Point3 0 0 0"
    using createPoses_forward_to_origin by blast
  from createPoses_first [OF ps] have m: "ps ! 0 \<in> set ps" and v: "ps ! 0 = ring_pose 30 0"
    by blast+
  have a: "position (ps ! 0) = Point3 30 0 0" "forward_axis (orientation (ps ! 0)) = Point3 (- 1) 0 0"
    unfolding v by (simp_all add: ring_pose_def)
  from all m have n: "normalize3 (sub3 (Point3 0 0 0) (position (ps ! 0))) = Some (forward_axis (orientation (ps ! 0)))"
    and d: "\<forall>t. 0 < t \<and> t < 60 \<longrightarrow>
           norm3 (add3 (position (ps ! 0)) (scale3 t (forward_axis (orientation (ps ! 0)))))
             < norm3 (position (ps ! 0))"
    by blast+
  have "(0::real) < 1 \<and> (1::real) < 60" by simp
  with d have "norm3 (add3 (position (ps ! 0)) (scale3 1 (forward_axis (orientation (ps ! 0)))))
       < norm3 (position (ps ! 0))" by blast
  with ps a n show ?thesis by blast
qed

text \<open>
  C5. createPoses() returns exactly 8 poses; for each of them the distance from its
  position to the origin is 30 (so within the tolerance 1e-9 of 30) and the
  z-coordinate of the position is 0.
\<close>

theorem createPoses_radius:
  "\<exists>ps. createPoses = Inr ps \<and> length ps = 8 \<and>
     (\<forall>p\<in>set ps.
        norm3 (sub3 (position p) (Point3 0 0 0)) = 30 \<and>
        \<bar>norm3 (sub3 (position p) (Point3 0 0 0)) - 30\<bar> \<le> 1 / 10 ^ 9 \<and>
        pz (position p) = 0)"
proof -
  obtain ps where ps: "createPoses = Inr ps" "length ps = 8"
    and ring: "\<forall>p\<in>set ps. \<exists>t. p = ring_pose 30 t"
    using createPoses_on_ring by blast
  have "norm3 (sub3 (position p) (Point3 0 0 0)) = 30 \<and>
        \<bar>norm3 (sub3 (position p) (Point3 0 0 0)) - 30\<bar> \<le> 1 / 10 ^ 9 \<and>
        pz (position p) = 0"
    if "p \<in> set ps" for p
  proof -
    from ring that obtain a where p: "p = ring_pose 30 a" by blast
    have s: "sub3 (position p) (Point3 0 0 0) = position p"
      by (simp add: sub3_def)
    show ?thesis
      unfolding s unfolding p ring_pose_norm by (simp add: ring_pose_def)
  qed
  with ps show ?thesis by blast
qed

theorem createPoses_radius_witness:
  "\<exists>ps. createPoses = Inr ps \<and>
     position (ps ! 0) = Point3 30 0 0 \<and>
     norm3 (sub3 (position (ps ! 0)) (Point3 0 0 0)) = 30 \<and>
     pz (position (ps ! 0)) = 0"
proof -
  obtain ps where ps: "createPoses = Inr ps"
    and all: "\<forall>p\<in>set ps.
        norm3 (sub3 (position p) (Point3 0 0 0)) = 30 \<and>
        \<bar>norm3 (sub3 (position p) (Point3 0 0 0)) - 30\<bar> \<le> 1 / 10 ^ 9 \<and>
        pz (position p) = 0"
    using createPoses_radius by blast
  from createPoses_first [OF ps] have m: "ps ! 0 \<in> set ps" and v: "ps ! 0 = ring_pose 30 0"
    by blast+
  have a: "position (ps ! 0) = Point3 30 0 0"
    unfolding v by (simp add: ring_pose_def)
  from all m have "norm3 (sub3 (position (ps ! 0)) (Point3 0 0 0)) = 30 \<and> pz (position (ps ! 0)) = 0"
    by blast
  with ps a show ?thesis by blast
qed

text \<open>
  C9. For every pose returned by createPoses(), the recomputed up axis of its orientation
  is exactly (0,0,1): every camera has zero roll, and the z-component of the forward
  axis is 0 for all 8 poses.
\<close>

theorem createPoses_zero_roll:
  "\<exists>ps. createPoses = Inr ps \<and>
     (\<forall>p\<in>set ps.
        up_axis (orientation p) = Point3 0 0 1 \<and>
        pz (forward_axis (orientation p)) = 0)"
proof -
  obtain ps where ps: "createPoses = Inr ps" and ring: "\<forall>p\<in>set ps. \<exists>t. p = ring_pose 30 t"
    using createPoses_on_ring by blast
  have "up_axis (orientation p) = Point3 0 0 1 \<and> pz (forward_axis (orientation p)) = 0"
    if "p \<in> set ps" for p
  proof -
    from ring that obtain a where p: "p = ring_pose 30 a" by blast
    show ?thesis unfolding p by (simp add: ring_pose_def)
  qed
  with ps show ?thesis by blast
qed

theorem createPoses_zero_roll_witness:
  "\<exists>ps. createPoses = Inr ps \<and>
     up_axis (orientation (ps ! 0)) = Point3 0 0 1 \<and>
     forward_axis (orientation (ps ! 0)) = Point3 (- 1) 0 0 \<and>
     pz (forward_axis (orientation (ps ! 0))) = 0"
proof -
  obtain ps where ps: "createPoses = Inr ps"
    and all: "\<forall>p\<in>set ps.
        up_axis (orientation p) = Point3 0 0 1 \<and>
        pz (forward_axis (orientation p)) = 0"
    using createPoses_zero_roll by blast
  from createPoses_first [OF ps] have m: "ps ! 0 \<in> set ps" and v: "ps ! 0 = ring_pose 30 0"
    by blast+
  have a: "forward_axis (orientation (ps ! 0)) = Point3 (- 1) 0 0"
    unfolding v by (simp add: ring_pose_def)
  from all m have "up_axis (orientation (ps ! 0)) = Point3 0 0 1 \<and>
     pz (forward_axis (orientation (ps ! 0))) = 0"
    by blast
  with ps a show ?thesis by blast
qed



section \<open>Totality\<close>

text \<open>
  C6. createPoints() and createPoses() are total and cannot fail. createPoints has no
  failing operation at all (its model has no error alternative); createPoses returns its
  8 poses, because at each of the 8 eye positions the look-at construction succeeds: the
  forward vector is horizontal (z = 0), perpendicular to the up hint (0,0,1), so
  forward \<times> up is a unit vector and never zero, and the degeneracy is not reached.
\<close>

theorem createPoses_total:
  "(\<exists>ps. createPoses = Inr ps \<and> length ps = 8) \<and>
   length createPoints = 8 \<and>
   (\<forall>theta\<in>set (linspace 0 (2 * pi) 8 False).
      \<exists>fwd camera.
        normalize3 (sub3 (Point3 0 0 0) (Point3 (30 * cos theta) (30 * sin theta) 0)) = Some fwd \<and>
        pz fwd = 0 \<and>
        dot3 fwd (Point3 0 0 1) = 0 \<and>
        norm3 (cross3 fwd (Point3 0 0 1)) = 1 \<and>
        cross3 fwd (Point3 0 0 1) \<noteq> Point3 0 0 0 \<and>
        Lookat (Point3 (30 * cos theta) (30 * sin theta) 0) (Point3 0 0 0) (Point3 0 0 1)
          = Inr camera)"
proof -
  have 1: "\<exists>ps. createPoses = Inr ps \<and> length ps = 8"
    using createPoses_on_ring by blast
  have 2: "length createPoints = 8"
    by (simp add: createPoints_def)
  have 3: "\<exists>fwd camera.
        normalize3 (sub3 (Point3 0 0 0) (Point3 (30 * cos theta) (30 * sin theta) 0)) = Some fwd \<and>
        pz fwd = 0 \<and>
        dot3 fwd (Point3 0 0 1) = 0 \<and>
        norm3 (cross3 fwd (Point3 0 0 1)) = 1 \<and>
        cross3 fwd (Point3 0 0 1) \<noteq> Point3 0 0 0 \<and>
        Lookat (Point3 (30 * cos theta) (30 * sin theta) 0) (Point3 0 0 0) (Point3 0 0 1)
          = Inr camera" for theta
  proof -
    let ?f = "Point3 (- cos theta) (- sin theta) 0"
    have f: "normalize3 (sub3 (Point3 0 0 0) (Point3 (30 * cos theta) (30 * sin theta) 0)) = Some ?f"
      using ring_pose_axes(2) [of theta] by (simp add: ring_pose_def)
    have c: "cross3 ?f (Point3 0 0 1) = Point3 (- sin theta) (cos theta) 0"
      by (simp add: cross3_def)
    have n: "norm3 (cross3 ?f (Point3 0 0 1)) = 1"
      unfolding c by (rule norm3_unit_tangent)
    have z: "cross3 ?f (Point3 0 0 1) \<noteq> Point3 0 0 0"
    proof
      assume "cross3 ?f (Point3 0 0 1) = Point3 0 0 0"
      with n have "norm3 (Point3 0 0 0) = 1" by simp
      then show False by (simp add: norm3_def dot3_def)
    qed
    have d: "pz ?f = 0" "dot3 ?f (Point3 0 0 1) = 0"
      by (simp_all add: dot3_def)
    have "0 < (30::real)" by simp
    from Lookat_ring [OF this, of theta] f d n z show ?thesis by blast
  qed
  from 1 2 3 show ?thesis by blast
qed

theorem createPoses_total_witness:
  "0 \<in> set (linspace 0 (2 * pi) 8 False) \<and>
   (\<exists>fwd camera.
        normalize3 (sub3 (Point3 0 0 0) (Point3 30 0 0)) = Some fwd \<and>
        pz fwd = 0 \<and>
        cross3 fwd (Point3 0 0 1) \<noteq> Point3 0 0 0 \<and>
        Lookat (Point3 30 0 0) (Point3 0 0 0) (Point3 0 0 1) = Inr camera)"
proof -
  have m: "0 \<in> set (linspace 0 (2 * pi) 8 False)"
    by (simp add: angles8 upt8)
  from createPoses_total have "\<forall>theta\<in>set (linspace 0 (2 * pi) 8 False).
      \<exists>fwd camera.
        normalize3 (sub3 (Point3 0 0 0) (Point3 (30 * cos theta) (30 * sin theta) 0)) = Some fwd \<and>
        pz fwd = 0 \<and>
        dot3 fwd (Point3 0 0 1) = 0 \<and>
        norm3 (cross3 fwd (Point3 0 0 1)) = 1 \<and>
        cross3 fwd (Point3 0 0 1) \<noteq> Point3 0 0 0 \<and>
        Lookat (Point3 (30 * cos theta) (30 * sin theta) 0) (Point3 0 0 0) (Point3 0 0 1)
          = Inr camera"
    by blast
  with m have "\<exists>fwd camera.
        normalize3 (sub3 (Point3 0 0 0) (Point3 (30 * cos 0) (30 * sin 0) 0)) = Some fwd \<and>
        pz fwd = 0 \<and>
        dot3 fwd (Point3 0 0 1) = 0 \<and>
        norm3 (cross3 fwd (Point3 0 0 1)) = 1 \<and>
        cross3 fwd (Point3 0 0 1) \<noteq> Point3 0 0 0 \<and>
        Lookat (Point3 (30 * cos 0) (30 * sin 0) 0) (Point3 0 0 0) (Point3 0 0 1)
          = Inr camera"
    by blast
  then have "\<exists>fwd camera.
        normalize3 (sub3 (Point3 0 0 0) (Point3 30 0 0)) = Some fwd \<and>
        pz fwd = 0 \<and>
        cross3 fwd (Point3 0 0 1) \<noteq> Point3 0 0 0 \<and>
        Lookat (Point3 30 0 0) (Point3 0 0 0) (Point3 0 0 1) = Inr camera"
    by simp blast
  with m show ?thesis by blast
qed

section \<open>Repeated calls and the store\<close>

text \<open>
  C7. Calling createPoints() twice yields value-equal results both times, and so does
  calling createPoses() twice: whatever the store is at the time of the call (\<open>h\<close> or
  \<open>g\<close>), the values read back from the returned list are the same, the values of
  \<open>createPoints\<close> and \<open>createPoses\<close>; for two calls in a row, the first result still
  reads the same after the second call, and the two results are different objects.
\<close>

theorem calls_value_equal:
  "points_of (snd (createPoints_heap h)) (fst (createPoints_heap h)) = Some createPoints \<and>
   points_of (snd (createPoints_heap g)) (fst (createPoints_heap g)) =
     points_of (snd (createPoints_heap h)) (fst (createPoints_heap h)) \<and>
   (\<exists>a1 h1 a2 h2.
      createPoints_heap h = (a1, h1) \<and> createPoints_heap h1 = (a2, h2) \<and>
      points_of h1 a1 = Some createPoints \<and>
      points_of h2 a1 = Some createPoints \<and>
      points_of h2 a2 = Some createPoints \<and>
      a1 \<noteq> a2) \<and>
   (\<exists>ps a b h' g'.
      createPoses = Inr ps \<and>
      createPoses_heap h = Inr (a, h') \<and> createPoses_heap g = Inr (b, g') \<and>
      poses_of h' a = Some ps \<and> poses_of g' b = Some ps) \<and>
   (\<exists>ps a1 h1 a2 h2.
      createPoses = Inr ps \<and>
      createPoses_heap h = Inr (a1, h1) \<and> createPoses_heap h1 = Inr (a2, h2) \<and>
      poses_of h1 a1 = Some ps \<and>
      poses_of h2 a1 = Some ps \<and>
      poses_of h2 a2 = Some ps \<and>
      a1 \<noteq> a2)"
proof -
  have 1: "points_of (snd (createPoints_heap k)) (fst (createPoints_heap k)) = Some createPoints"
    for k by (rule createPoints_heap_read)
  have 3: "\<exists>a1 h1 a2 h2.
      createPoints_heap h = (a1, h1) \<and> createPoints_heap h1 = (a2, h2) \<and>
      points_of h1 a1 = Some createPoints \<and>
      points_of h2 a1 = Some createPoints \<and>
      points_of h2 a2 = Some createPoints \<and>
      a1 \<noteq> a2"
  proof -
    obtain a1 h1 where c1: "createPoints_heap h = (a1, h1)" by (cases "createPoints_heap h")
    obtain a2 h2 where c2: "createPoints_heap h1 = (a2, h2)" by (cases "createPoints_heap h1")
    from 1 [of h] c1 have r1: "points_of h1 a1 = Some createPoints" by simp
    from 1 [of h1] c2 have r2: "points_of h2 a2 = Some createPoints" by simp
    from createPoints_heap_frame [of h1] c2 have f: "take (length h1) h2 = h1" by simp
    from f r1 have r3: "points_of h2 a1 = Some createPoints" by (rule points_of_extend)
    have "a1 = length h + 8" "length h1 = length h + 9" "a2 = length h1 + 8"
      using c1 c2 by (auto simp: createPoints_heap_closed createPoints_def)
    then have "a1 \<noteq> a2" by simp
    with c1 c2 r1 r2 r3 show ?thesis by blast
  qed
  obtain ps where ps: "createPoses = Inr ps"
    and rd: "\<And>k. poses_of (ring_heap k) (length k + 3) = Some ps"
    using createPoses_value ring_heap_read by blast
  have 4: "\<exists>ps a b h' g'.
      createPoses = Inr ps \<and>
      createPoses_heap h = Inr (a, h') \<and> createPoses_heap g = Inr (b, g') \<and>
      poses_of h' a = Some ps \<and> poses_of g' b = Some ps"
    using ps rd [of h] rd [of g] createPoses_heap_closed [of h] createPoses_heap_closed [of g]
    by blast
  have 5: "\<exists>ps a1 h1 a2 h2.
      createPoses = Inr ps \<and>
      createPoses_heap h = Inr (a1, h1) \<and> createPoses_heap h1 = Inr (a2, h2) \<and>
      poses_of h1 a1 = Some ps \<and>
      poses_of h2 a1 = Some ps \<and>
      poses_of h2 a2 = Some ps \<and>
      a1 \<noteq> a2"
  proof -
    let ?h1 = "ring_heap h"
    let ?h2 = "ring_heap ?h1"
    have f: "take (length ?h1) ?h2 = ?h1" by (rule ring_heap_frame)
    from f rd [of h] have r3: "poses_of ?h2 (length h + 3) = Some ps" by (rule poses_of_extend)
    have n: "length h + 3 \<noteq> length ?h1 + 3" by (simp add: ring_heap_length)
    from ps createPoses_heap_closed [of h] createPoses_heap_closed [of ?h1] rd [of h] r3 rd [of ?h1] n
    show ?thesis by blast
  qed
  from 1 [of h] 1 [of g] 3 4 5 show ?thesis by simp
qed

text \<open>
  C8. Neither createPoints() nor createPoses() changes an object that existed before the
  call: the store after the call begins with the store before it, unchanged. The
  returned list and all its elements are new objects, created by the call.
\<close>

theorem calls_leave_heap:
  "take (length h) (snd (createPoints_heap h)) = h \<and>
   (\<forall>a<length h. lookup (snd (createPoints_heap h)) a = lookup h a) \<and>
   length h \<le> fst (createPoints_heap h) \<and>
   (\<exists>xs. lookup (snd (createPoints_heap h)) (fst (createPoints_heap h)) = Some (ListObj xs) \<and>
         (\<forall>x\<in>set xs. length h \<le> x)) \<and>
   (\<exists>a h'. createPoses_heap h = Inr (a, h') \<and>
      take (length h) h' = h \<and>
      (\<forall>b<length h. lookup h' b = lookup h b) \<and>
      length h \<le> a \<and>
      (\<exists>xs. lookup h' a = Some (ListObj xs) \<and> (\<forall>x\<in>set xs. length h \<le> x)))"
proof -
  have 1: "take (length h) (snd (createPoints_heap h)) = h"
    by (rule createPoints_heap_frame)
  then have 2: "\<forall>a<length h. lookup (snd (createPoints_heap h)) a = lookup h a"
    by (simp add: lookup_extend)
  have 3: "length h \<le> fst (createPoints_heap h)"
    by (simp add: createPoints_heap_closed)
  have l: "length createPoints = 8" by (simp add: createPoints_def)
  have "lookup (snd (createPoints_heap h)) (fst (createPoints_heap h)) =
          Some (ListObj (map (\<lambda>i. length h + i) [0..<8]))"
    by (simp add: createPoints_heap_closed lookup_def l nth_append)
  moreover have "\<forall>x\<in>set (map (\<lambda>i. length h + i) [0..<8]). length h \<le> x"
    by simp
  ultimately have 4: "\<exists>xs. lookup (snd (createPoints_heap h)) (fst (createPoints_heap h)) = Some (ListObj xs) \<and>
         (\<forall>x\<in>set xs. length h \<le> x)"
    by blast
  have f: "take (length h) (ring_heap h) = h" by (rule ring_heap_frame)
  then have g: "\<forall>b<length h. lookup (ring_heap h) b = lookup h b"
    by (simp add: lookup_extend)
  have "lookup (ring_heap h) (length h + 3) =
             Some (ListObj (map (\<lambda>i. length h + 4 + 3 * i + 2) [0..<8]))"
    by (simp add: lookup_def ring_heap_length) (simp add: ring_heap_def)
  moreover have "\<forall>x\<in>set (map (\<lambda>i. length h + 4 + 3 * i + 2) [0..<8]). length h \<le> x"
    by simp
  ultimately have "\<exists>xs. lookup (ring_heap h) (length h + 3) = Some (ListObj xs) \<and>
      (\<forall>x\<in>set xs. length h \<le> x)"
    by blast
  with f g createPoses_heap_closed [of h] have 5: "\<exists>a h'. createPoses_heap h = Inr (a, h') \<and>
      take (length h) h' = h \<and>
      (\<forall>b<length h. lookup h' b = lookup h b) \<and>
      length h \<le> a \<and>
      (\<exists>xs. lookup h' a = Some (ListObj xs) \<and> (\<forall>x\<in>set xs. length h \<le> x))"
    by (intro exI [of _ "length h + 3"] exI [of _ "ring_heap h"]) simp
  from 1 2 3 4 5 show ?thesis by blast
qed

theorem calls_leave_heap_witness:
  "take 2 (snd (createPoints_heap [PointObj (Point3 1 2 3), ListObj [0]]))
     = [PointObj (Point3 1 2 3), ListObj [0]] \<and>
   lookup (snd (createPoints_heap [PointObj (Point3 1 2 3), ListObj [0]])) 1 = Some (ListObj [0]) \<and>
   fst (createPoints_heap [PointObj (Point3 1 2 3), ListObj [0]]) = 10 \<and>
   (\<exists>h'. createPoses_heap [PointObj (Point3 1 2 3), ListObj [0]] = Inr (5, h') \<and>
      lookup h' 0 = Some (PointObj (Point3 1 2 3)) \<and>
      lookup h' 1 = Some (ListObj [0]))"
proof -
  let ?h = "[PointObj (Point3 1 2 3), ListObj [0]]"
  have len: "length ?h = 2" by simp
  note t = calls_leave_heap [of ?h, unfolded len]
  from t have 1: "take 2 (snd (createPoints_heap ?h)) = ?h"
    by blast
  from t have "\<forall>a<2. lookup (snd (createPoints_heap ?h)) a = lookup ?h a"
    by blast
  then have "lookup (snd (createPoints_heap ?h)) 1 = lookup ?h 1"
    by simp
  then have 2: "lookup (snd (createPoints_heap ?h)) 1 = Some (ListObj [0])"
    by (simp add: lookup_def)
  have 3: "fst (createPoints_heap ?h) = 10"
    by (simp add: createPoints_heap_closed)
  from t obtain a h' where c: "createPoses_heap ?h = Inr (a, h')"
    and f: "\<forall>b<2. lookup h' b = lookup ?h b"
    by blast
  from c have a: "a = 5"
    by (simp add: createPoses_heap_closed)
  from f have "lookup h' 0 = lookup ?h 0" "lookup h' 1 = lookup ?h 1"
    by simp_all
  then have 4: "lookup h' 0 = Some (PointObj (Point3 1 2 3))" "lookup h' 1 = Some (ListObj [0])"
    by (simp_all add: lookup_def)
  from 1 2 3 c a 4 show ?thesis by blast
qed

end
